theory Spec2Isabelle
  imports Complex_Main "HOL-Library.AList"
begin

section \<open>The Star Wars API client: data model\<close>

text \<open>
  The file \<^verbatim>\<open>src/swapi.js\<close> holds the program twice: the first copy in lines 1-304
  and the second copy in lines 305-575. A definition with the suffix \<open>_A\<close> embeds a
  function of the first copy, one with the suffix \<open>_B\<close> the function of the same name
  of the second copy; a definition without a suffix is code that both copies share
  word for word.
\<close>

subsection \<open>Parsed JSON values and JavaScript truthiness\<close>

text \<open>
  The values \<^verbatim>\<open>JSON.parse\<close> returns. A number is the value of the double (finite
  doubles are rationals); an object is its list of properties.
\<close>

datatype json =
    JNull
  | JBool bool
  | JNum rat
  | JStr string
  | JArr "json list"
  | JObj "(string \<times> json) list"

text \<open>
  \<^verbatim>\<open>if (v)\<close> on a parsed value: \<^verbatim>\<open>null\<close>, \<^verbatim>\<open>false\<close>, \<^verbatim>\<open>0\<close> and the empty
  string are falsy, every array and object is truthy.
\<close>

fun truthy :: "json \<Rightarrow> bool" where
  "truthy JNull = False"
| "truthy (JBool b) = b"
| "truthy (JNum n) = (n \<noteq> 0)"
| "truthy (JStr s) = (s \<noteq> [])"
| "truthy (JArr xs) = True"
| "truthy (JObj kvs) = True"

subsection \<open>Numbers in template literals\<close>

definition digit_char :: "nat \<Rightarrow> char" where
  "digit_char d = ''0123456789'' ! d"

text \<open>The decimal digits of a natural number, as \<^verbatim>\<open>`${n}`\<close> prints them.\<close>

function show_nat :: "nat \<Rightarrow> string" where
  "show_nat n = (if n < 10 then [digit_char n] else show_nat (n div 10) @ [digit_char (n mod 10)])"
  by pat_completeness auto
termination
  by (relation "measure id") auto

declare show_nat.simps [simp del]

subsection \<open>Constants (lines 6-19, 310-313)\<close>

definition BAD_REQUEST :: nat where
  "BAD_REQUEST = 400"

definition maxlastCharacterId :: nat where
  "maxlastCharacterId = 4"

subsection \<open>Errors\<close>

text \<open>
  The exceptions of the program, by where they are made:
  \<^item> \<open>RequestTimeout endpoint\<close> is \<^verbatim>\<open>new Error(`Request timeout for ${endpoint}`)\<close>
    (lines 74, 366), the spec's TimeoutError;
  \<^item> \<open>RequestFailed code\<close> is
    \<^verbatim>\<open>new Error(`Request failed with status code ${response.statusCode}`)\<close>
    (lines 60, 346), the spec's HttpStatusError;
  \<^item> \<open>SyntaxError m\<close> is what \<^verbatim>\<open>JSON.parse\<close> throws on a malformed body, with its
    message, the spec's ParseError;
  \<^item> \<open>RequestError m\<close> is the argument of the request's \<^verbatim>\<open>"error"\<close> event (lines 76,
    362): a network failure, with its message;
  \<^item> \<open>HandlerError m\<close> is an exception a display handler throws, with its message.
\<close>

datatype error =
    RequestTimeout string
  | RequestFailed nat
  | SyntaxError string
  | RequestError string
  | HandlerError string

text \<open>\<^verbatim>\<open>err.message\<close>\<close>

fun message :: "error \<Rightarrow> string" where
  "message (RequestTimeout endpoint) = ''Request timeout for '' @ endpoint"
| "message (RequestFailed code) = ''Request failed with status code '' @ show_nat code"
| "message (SyntaxError m) = m"
| "message (RequestError m) = m"
| "message (HandlerError m) = m"

subsection \<open>The world outside the process\<close>

text \<open>
  What \<^verbatim>\<open>JSON.parse(rawData)\<close> makes of a response body: the parsed value, or a
  \<^verbatim>\<open>SyntaxError\<close> with its message.
\<close>

datatype body = Parsed json | Malformed string

text \<open>
  What happens to one outbound \<^verbatim>\<open>https.get\<close>:
  \<^item> \<open>NoResponse\<close>: the timeout set by \<^verbatim>\<open>request.setTimeout\<close> fires before the
    response has ended;
  \<^item> \<open>SocketError m\<close>: the request emits \<^verbatim>\<open>"error"\<close>;
  \<^item> \<open>Response code b\<close>: the response arrives with status code \<open>code\<close>, and its
    body, once complete, reads as \<open>b\<close>.

  Every request comes to one of these ends. A request that never ends (the timer
  switched off with \<^verbatim>\<open>--timeout 0\<close> and a remote side that stays silent) leaves the
  call of \<^verbatim>\<open>fetchFromApi\<close> pending for ever and is not described.
\<close>

datatype reply = NoResponse | SocketError string | Response nat body

text \<open>The five display functions, as the values the task list pairs with endpoints.\<close>

datatype handler =
    DisplayCharacterDetails
  | DisplayStarships
  | DisplayLargePlanets
  | DisplayFilmsChronologically
  | DisplayVehicle

text \<open>
  Everything the program takes from outside:
  \<^item> \<open>remote n endpoint\<close> is the fate of a request for \<open>endpoint\<close> that is issued
    after \<open>n\<close> earlier requests of the process, so the remote side may answer the
    same endpoint differently over time;
  \<^item> \<open>stringify_length v\<close> is \<^verbatim>\<open>JSON.stringify(v).length\<close>;
  \<^item> \<open>handler_throws h v\<close> is \<open>Some m\<close> when display function \<open>h\<close>, called with
    \<open>v\<close>, throws an exception with message \<open>m\<close>, and \<open>None\<close> when it returns. The
    display functions only print (the spec treats them as external collaborators), and
    \<^verbatim>\<open>displayFilmsChronologically\<close> also sorts \<^verbatim>\<open>films.results\<close> in place, which
    reorders a list inside the cached value but changes neither the keys of the cache
    nor any counter; the order inside a cached list is not modelled.
\<close>

record env =
  remote :: "nat \<Rightarrow> string \<Rightarrow> reply"
  stringify_length :: "json \<Rightarrow> nat"
  handler_throws :: "handler \<Rightarrow> json \<Rightarrow> string option"

subsection \<open>The state of the process (lines 21-28, 315-322)\<close>

text \<open>
  \<open>cache\<close> holds the own properties of the object \<^verbatim>\<open>cache\<close> in insertion order.
  An endpoint is a path as the program builds it (\<^verbatim>\<open>people/1\<close>, \<^verbatim>\<open>films/\<close>, ...): the
  names that every object inherits (\<^verbatim>\<open>constructor\<close>, \<^verbatim>\<open>toString\<close>, \<^verbatim>\<open>__proto__\<close>, ...),
  which \<^verbatim>\<open>cache[endpoint]\<close> would find in an empty cache, are no such paths and are
  not modelled. The counters are natural numbers (the doubles of JavaScript count exactly up to
  \<open>2^53\<close>). Three fields are not variables of the program but a record of what it
  did: \<open>calls\<close> lists the endpoints \<^verbatim>\<open>fetchFromApi\<close> was called with, \<open>requests\<close>
  the endpoints of the outbound \<^verbatim>\<open>https.get\<close> requests, and \<open>errorLog\<close> the messages
  printed by \<^verbatim>\<open>console.error\<close>, each oldest first. The configuration read at
  startup (\<^verbatim>\<open>debugMode\<close>, \<^verbatim>\<open>timeout\<close>) only steers printing and the socket timer
  and is left out.
\<close>

record state =
  cache :: "(string \<times> json) list"
  errorCount :: nat
  fetchCount :: nat
  totalDataSize :: nat
  lastCharacterId :: nat
  calls :: "string list"
  requests :: "string list"
  errorLog :: "string list"

definition initial_state :: state where
  "initial_state =
     \<lparr>cache = [], errorCount = 0, fetchCount = 0, totalDataSize = 0, lastCharacterId = 1,
      calls = [], requests = [], errorLog = []\<rparr>"

text \<open>\<^verbatim>\<open>Object.keys(cache)\<close>\<close>

definition Object_keys :: "(string \<times> json) list \<Rightarrow> string list" where
  "Object_keys c = map fst c"

text \<open>
  The test \<^verbatim>\<open>if (cache[endpoint])\<close> of lines 50 and 337, with the value it lets
  through: a stored value counts only when it is truthy.
\<close>

definition cached :: "(string \<times> json) list \<Rightarrow> string \<Rightarrow> json option" where
  "cached c endpoint =
     (case map_of c endpoint of
        None \<Rightarrow> None
      | Some v \<Rightarrow> if truthy v then Some v else None)"

text \<open>\<^verbatim>\<open>handleError\<close> (lines 43-46, 330-333)\<close>

definition handleError :: "string \<Rightarrow> state \<Rightarrow> state" where
  "handleError msg s =
     s\<lparr>errorCount := errorCount s + 1, errorLog := errorLog s @ [''Error: '' @ msg]\<rparr>"

section \<open>fetchFromApi\<close>

text \<open>
  How a call of \<^verbatim>\<open>fetchFromApi\<close> ends: its promise is resolved with a value, or
  rejected with an error, or an exception leaves an event listener with nothing to
  catch it, which ends the Node.js process (\<open>Uncaught\<close>).
\<close>

datatype settlement = Resolved json | Rejected error | Uncaught error

text \<open>
  First copy, lines 49-78. The \<^verbatim>\<open>try\<close> of lines 58-70 encloses the status check and
  the registration of the listeners; the \<^verbatim>\<open>"end"\<close> listener of lines 62-67 runs
  later, outside it, so the exception of \<^verbatim>\<open>JSON.parse\<close> in line 63 is caught by
  nobody. It is thrown before the assignment to \<^verbatim>\<open>cache[endpoint]\<close> takes place.
\<close>

definition fetchFromApi_A :: "env \<Rightarrow> string \<Rightarrow> state \<Rightarrow> settlement \<times> state" where
  "fetchFromApi_A e endpoint s0 =
     (let s = s0\<lparr>calls := calls s0 @ [endpoint]\<rparr> in
      case cached (cache s) endpoint of
        Some v \<Rightarrow> (Resolved v, s)
      | None \<Rightarrow>
          (let r = remote e (length (requests s)) endpoint;
               s1 = s\<lparr>requests := requests s @ [endpoint]\<rparr>
           in case r of
                Response code b \<Rightarrow>
                  if code \<ge> BAD_REQUEST then (Rejected (RequestFailed code), s1)
                  else (case b of
                          Malformed m \<Rightarrow> (Uncaught (SyntaxError m), s1)
                        | Parsed v \<Rightarrow>
                            (Resolved v, s1\<lparr>cache := AList.update endpoint v (cache s1)\<rparr>))
              | NoResponse \<Rightarrow> (Rejected (RequestTimeout endpoint), s1)
              | SocketError m \<Rightarrow> (Rejected (RequestError m), s1)))"

text \<open>
  Second copy, lines 336-369. Here the \<^verbatim>\<open>try\<close> of lines 351-358 stands inside the
  \<^verbatim>\<open>"end"\<close> listener, so a malformed body rejects the promise.
\<close>

definition fetchFromApi_B :: "env \<Rightarrow> string \<Rightarrow> state \<Rightarrow> settlement \<times> state" where
  "fetchFromApi_B e endpoint s0 =
     (let s = s0\<lparr>calls := calls s0 @ [endpoint]\<rparr> in
      case cached (cache s) endpoint of
        Some v \<Rightarrow> (Resolved v, s)
      | None \<Rightarrow>
          (let r = remote e (length (requests s)) endpoint;
               s1 = s\<lparr>requests := requests s @ [endpoint]\<rparr>
           in case r of
                Response code b \<Rightarrow>
                  if code \<ge> 400 then (Rejected (RequestFailed code), s1)
                  else (case b of
                          Malformed m \<Rightarrow> (Rejected (SyntaxError m), s1)
                        | Parsed v \<Rightarrow>
                            (Resolved v, s1\<lparr>cache := AList.update endpoint v (cache s1)\<rparr>))
              | SocketError m \<Rightarrow> (Rejected (RequestError m), s1)
              | NoResponse \<Rightarrow> (Rejected (RequestTimeout endpoint), s1)))"

section \<open>fetchStarWarsData\<close>

text \<open>
  How the body of the \<^verbatim>\<open>try\<close> of \<^verbatim>\<open>fetchStarWarsData\<close> ends: it runs to its end,
  or an exception reaches the \<^verbatim>\<open>catch\<close>, or the process has died.
\<close>

datatype completion = Normal | Threw error | Died error

text \<open>Statements in sequence: the second runs only when the first ends normally.\<close>

fun seq :: "completion \<times> state \<Rightarrow> (state \<Rightarrow> completion \<times> state) \<Rightarrow> completion \<times> state" where
  "seq (Normal, s) f = f s"
| "seq (Threw x, s) f = (Threw x, s)"
| "seq (Died x, s) f = (Died x, s)"

text \<open>
  The three statements that follow each other for every endpoint (lines 171-173,
  446-448 and so on): await the fetch, add the serialized length, call the handler.
\<close>

definition fetch_and_display_A :: "env \<Rightarrow> string \<Rightarrow> handler \<Rightarrow> state \<Rightarrow> completion \<times> state" where
  "fetch_and_display_A e endpoint h s =
     (case fetchFromApi_A e endpoint s of
        (Resolved d, s1) \<Rightarrow>
          (let s2 = s1\<lparr>totalDataSize := totalDataSize s1 + stringify_length e d\<rparr> in
           case handler_throws e h d of
             Some m \<Rightarrow> (Threw (HandlerError m), s2)
           | None \<Rightarrow> (Normal, s2))
      | (Rejected x, s1) \<Rightarrow> (Threw x, s1)
      | (Uncaught x, s1) \<Rightarrow> (Died x, s1))"

definition fetch_and_display_B :: "env \<Rightarrow> string \<Rightarrow> handler \<Rightarrow> state \<Rightarrow> completion \<times> state" where
  "fetch_and_display_B e endpoint h s =
     (case fetchFromApi_B e endpoint s of
        (Resolved d, s1) \<Rightarrow>
          (let s2 = s1\<lparr>totalDataSize := totalDataSize s1 + stringify_length e d\<rparr> in
           case handler_throws e h d of
             Some m \<Rightarrow> (Threw (HandlerError m), s2)
           | None \<Rightarrow> (Normal, s2))
      | (Rejected x, s1) \<Rightarrow> (Threw x, s1)
      | (Uncaught x, s1) \<Rightarrow> (Died x, s1))"

text \<open>
  The task list of the first copy (lines 30-35). The array is built once, when the
  module is loaded, so the template \<^verbatim>\<open>`people/${lastCharacterId}`\<close> is evaluated then,
  with the initial value of \<^verbatim>\<open>lastCharacterId\<close>.
\<close>

definition tasks :: "(string \<times> handler) list" where
  "tasks =
     [(''people/'' @ show_nat (lastCharacterId initial_state), DisplayCharacterDetails),
      (''starships/?page=1'', DisplayStarships),
      (''planets/?page=1'', DisplayLargePlanets),
      (''films/'', DisplayFilmsChronologically)]"

text \<open>The loop of lines 170-174.\<close>

fun for_tasks_A :: "env \<Rightarrow> (string \<times> handler) list \<Rightarrow> state \<Rightarrow> completion \<times> state" where
  "for_tasks_A e [] s = (Normal, s)"
| "for_tasks_A e ((endpoint, h) # ts) s =
     seq (fetch_and_display_A e endpoint h s) (for_tasks_A e ts)"

text \<open>The vehicle step (lines 176-181 and 462-467).\<close>

definition vehicle_step_A :: "env \<Rightarrow> state \<Rightarrow> completion \<times> state" where
  "vehicle_step_A e s =
     (if lastCharacterId s \<le> maxlastCharacterId then
        seq (fetch_and_display_A e (''vehicles/'' @ show_nat (lastCharacterId s)) DisplayVehicle s)
          (\<lambda>s1. (Normal, s1\<lparr>lastCharacterId := lastCharacterId s1 + 1\<rparr>))
      else (Normal, s))"

definition vehicle_step_B :: "env \<Rightarrow> state \<Rightarrow> completion \<times> state" where
  "vehicle_step_B e s =
     (if lastCharacterId s \<le> 4 then
        seq (fetch_and_display_B e (''vehicles/'' @ show_nat (lastCharacterId s)) DisplayVehicle s)
          (\<lambda>s1. (Normal, s1\<lparr>lastCharacterId := lastCharacterId s1 + 1\<rparr>))
      else (Normal, s))"

text \<open>
  The body of the \<^verbatim>\<open>try\<close>: lines 167-187 of the first copy, lines 443-473 of the
  second. The debug printing is left out.
\<close>

definition try_body_A :: "env \<Rightarrow> state \<Rightarrow> completion \<times> state" where
  "try_body_A e s0 =
     (let s = s0\<lparr>fetchCount := fetchCount s0 + 1\<rparr> in
      seq (for_tasks_A e tasks s) (vehicle_step_A e))"

definition try_body_B :: "env \<Rightarrow> state \<Rightarrow> completion \<times> state" where
  "try_body_B e s0 =
     (let s = s0\<lparr>fetchCount := fetchCount s0 + 1\<rparr> in
      seq (seq (seq (seq
        (fetch_and_display_B e (''people/'' @ show_nat (lastCharacterId s)) DisplayCharacterDetails s)
        (fetch_and_display_B e ''starships/?page=1'' DisplayStarships))
        (fetch_and_display_B e ''planets/?page=1'' DisplayLargePlanets))
        (fetch_and_display_B e ''films/'' DisplayFilmsChronologically))
        (vehicle_step_B e))"

text \<open>
  How one invocation of \<^verbatim>\<open>fetchStarWarsData\<close> ends: \<open>Completed\<close> when the body of
  the \<^verbatim>\<open>try\<close> ran to its end, \<open>Handled\<close> when the \<^verbatim>\<open>catch\<close> of lines 189-191
  (475-477) called \<^verbatim>\<open>handleError\<close>, \<open>Crashed\<close> when the process died of an uncaught
  exception; each with the state it leaves.
\<close>

datatype outcome = Completed state | Handled state | Crashed state

fun catch_block :: "completion \<times> state \<Rightarrow> outcome" where
  "catch_block (Normal, s) = Completed s"
| "catch_block (Threw x, s) = Handled (handleError (message x) s)"
| "catch_block (Died x, s) = Crashed s"

definition fetchStarWarsData_A :: "env \<Rightarrow> state \<Rightarrow> outcome" where
  "fetchStarWarsData_A e s = catch_block (try_body_A e s)"

definition fetchStarWarsData_B :: "env \<Rightarrow> state \<Rightarrow> outcome" where
  "fetchStarWarsData_B e s = catch_block (try_body_B e s)"

fun state_of :: "outcome \<Rightarrow> state" where
  "state_of (Completed s) = s"
| "state_of (Handled s) = s"
| "state_of (Crashed s) = s"

section \<open>The HTTP server (lines 217-246, 490-526)\<close>

text \<open>The object that the route \<^verbatim>\<open>/stats\<close> serializes (lines 206-215, 505-512).\<close>

record stats =
  api_calls :: nat
  cache_size :: nat
  data_size :: nat
  errors :: nat

definition statsStringfied :: "state \<Rightarrow> stats" where
  "statsStringfied s =
     \<lparr>api_calls = fetchCount s, cache_size = length (Object_keys (cache s)),
      data_size = totalDataSize s, errors = errorCount s\<rparr>"

text \<open>
  What the server answers: the home page (whose footer shows the API calls, the cache
  entries and the errors), the acknowledgement of \<^verbatim>\<open>/api\<close>, the statistics, or 404.
\<close>

datatype response = HomePage nat nat nat | Acknowledged | Stats stats | NotFound

text \<open>The process after a request: still running, or terminated by an uncaught exception.\<close>

datatype process = Running state | Terminated state

fun after_run :: "outcome \<Rightarrow> process" where
  "after_run (Completed s) = Running s"
| "after_run (Handled s) = Running s"
| "after_run (Crashed s) = Terminated s"

text \<open>
  The request listener of \<^verbatim>\<open>startServer\<close>. The route \<^verbatim>\<open>/api\<close> starts
  \<^verbatim>\<open>fetchStarWarsData\<close> and answers at once; here the run it starts is taken to its
  end before the next request is looked at, so runs do not overlap.
\<close>

definition listener_A :: "env \<Rightarrow> string \<Rightarrow> state \<Rightarrow> response \<times> process" where
  "listener_A e url s =
     (if url = ''/'' \<or> url = ''/index.html'' then
        (HomePage (fetchCount s) (length (Object_keys (cache s))) (errorCount s), Running s)
      else if url = ''/api'' then (Acknowledged, after_run (fetchStarWarsData_A e s))
      else if url = ''/stats'' then (Stats (statsStringfied s), Running s)
      else (NotFound, Running s))"

definition listener_B :: "env \<Rightarrow> string \<Rightarrow> state \<Rightarrow> response \<times> process" where
  "listener_B e url s =
     (if url = ''/'' \<or> url = ''/index.html'' then
        (HomePage (fetchCount s) (length (Object_keys (cache s))) (errorCount s), Running s)
      else if url = ''/api'' then (Acknowledged, after_run (fetchStarWarsData_B e s))
      else if url = ''/stats'' then (Stats (statsStringfied s), Running s)
      else (NotFound, Running s))"

text \<open>The server handling a sequence of requests, until the process terminates.\<close>

fun startServer_A :: "env \<Rightarrow> string list \<Rightarrow> state \<Rightarrow> process" where
  "startServer_A e [] s = Running s"
| "startServer_A e (url # urls) s =
     (case snd (listener_A e url s) of
        Running s1 \<Rightarrow> startServer_A e urls s1
      | Terminated s1 \<Rightarrow> Terminated s1)"

fun startServer_B :: "env \<Rightarrow> string list \<Rightarrow> state \<Rightarrow> process" where
  "startServer_B e [] s = Running s"
| "startServer_B e (url # urls) s =
     (case snd (listener_B e url s) of
        Running s1 \<Rightarrow> startServer_B e urls s1
      | Terminated s1 \<Rightarrow> Terminated s1)"

fun last_state :: "process \<Rightarrow> state" where
  "last_state (Running s) = s"
| "last_state (Terminated s) = s"

section \<open>The filter of large populated planets\<close>

subsection \<open>Strings as numbers\<close>

text \<open>
  The results of \<^verbatim>\<open>Number(s)\<close> and \<^verbatim>\<open>parseInt(s)\<close>. A finite result is the value of
  the double the code computes: the number the string denotes, rounded to the nearest
  double, ties to even (\<open>to_double\<close> below). The two zeros of JavaScript are one
  \<open>Num 0\<close>; they compare alike.
\<close>

datatype number = NaN | Num rat | PosInfinity | NegInfinity

definition Number_isNaN :: "number \<Rightarrow> bool" where
  "Number_isNaN x = (x = NaN)"

text \<open>\<^verbatim>\<open>x > t\<close> for a number \<open>x\<close> and a finite \<open>t\<close>: false when \<open>x\<close> is \<^verbatim>\<open>NaN\<close>.\<close>

fun number_gt :: "number \<Rightarrow> rat \<Rightarrow> bool" where
  "number_gt NaN t = False"
| "number_gt (Num x) t = (x > t)"
| "number_gt PosInfinity t = True"
| "number_gt NegInfinity t = False"

text \<open>
  A character of a string is a UTF-16 code unit up to \<^verbatim>\<open>U+00FF\<close>. Of these ECMAScript
  counts seven as white space or line terminators: tab, line feed, vertical tab, form
  feed, carriage return, space and the no-break space \<^verbatim>\<open>U+00A0\<close>.
\<close>

definition is_space :: "char \<Rightarrow> bool" where
  "is_space c =
     (c \<in> set [CHR 0x09, CHR 0x0A, CHR 0x0B, CHR 0x0C, CHR 0x0D, CHR '' '', CHR 0xA0])"

definition trim :: "string \<Rightarrow> string" where
  "trim s = rev (dropWhile is_space (rev (dropWhile is_space s)))"

text \<open>The value of a character as a digit: \<open>0-9\<close>, \<open>a-z\<close> and \<open>A-Z\<close> up to radix 16.\<close>

definition digit_val :: "char \<Rightarrow> nat option" where
  "digit_val c =
     (let n = (of_char c :: nat) in
      if 48 \<le> n \<and> n \<le> 57 then Some (n - 48)
      else if 97 \<le> n \<and> n \<le> 102 then Some (n - 87)
      else if 65 \<le> n \<and> n \<le> 70 then Some (n - 55)
      else None)"

definition is_digit_in :: "nat \<Rightarrow> char \<Rightarrow> bool" where
  "is_digit_in radix c = (case digit_val c of None \<Rightarrow> False | Some d \<Rightarrow> d < radix)"

definition digits_value :: "nat \<Rightarrow> string \<Rightarrow> nat" where
  "digits_value radix ds =
     foldl (\<lambda>acc c. acc * radix + (case digit_val c of None \<Rightarrow> 0 | Some d \<Rightarrow> d)) 0 ds"

text \<open>A leading sign: whether it is a minus, and the rest of the string.\<close>

definition split_sign :: "string \<Rightarrow> bool \<times> string" where
  "split_sign s =
     (case s of
        [] \<Rightarrow> (False, [])
      | c # cs \<Rightarrow>
          if c = CHR ''-'' then (True, cs) else if c = CHR ''+'' then (False, cs) else (False, s))"

text \<open>
  Rounding to a double (IEEE 754 binary64, round to nearest, ties to even).
  \<open>bit_length n\<close> is the number of binary digits of \<open>n\<close>; \<open>round_half_even p q\<close> is
  the integer nearest to \<open>p / q\<close>, the even one of two that are equally near;
  \<open>binary_exponent p q\<close> is the \<open>k\<close> with \<open>2^k \<le> p / q < 2^(k + 1)\<close>, for positive \<open>p\<close>
  and \<open>q\<close>.
\<close>

fun bit_length :: "nat \<Rightarrow> nat" where
  "bit_length n = (if n = 0 then 0 else Suc (bit_length (n div 2)))"

declare bit_length.simps [simp del]

definition round_half_even :: "nat \<Rightarrow> nat \<Rightarrow> nat" where
  "round_half_even p q =
     (let d = p div q; r = p mod q in
      if 2 * r < q then d
      else if q < 2 * r then d + 1
      else if even d then d else d + 1)"

definition binary_exponent :: "nat \<Rightarrow> nat \<Rightarrow> int" where
  "binary_exponent p q =
     (let k = int (bit_length p) - int (bit_length q) in
      if (if 0 \<le> k then q * 2 ^ nat k \<le> p else q \<le> p * 2 ^ nat (- k)) then k else k - 1)"

text \<open>
  \<open>to_double neg p q\<close> is the double nearest to \<open>p / q\<close> (with \<open>q\<close> positive), negated
  when \<open>neg\<close> holds. A double with binary exponent \<open>e\<close> is a multiple of \<open>2^(e - 52)\<close>;
  the exponent does not go below \<open>- 1022\<close> (below that the doubles are subnormal), and
  what rounds to \<open>2^1024\<close> or more is infinite.
\<close>

definition to_double :: "bool \<Rightarrow> nat \<Rightarrow> nat \<Rightarrow> number" where
  "to_double neg p q =
     (if p = 0 then Num 0
      else
        (let e = max (binary_exponent p q) (- 1022);
             n = (if e \<le> 52 then round_half_even (p * 2 ^ nat (52 - e)) q
                  else round_half_even p (q * 2 ^ nat (e - 52)))
         in if 1023 < e \<or> (e = 1023 \<and> 2 ^ 53 \<le> n) then (if neg then NegInfinity else PosInfinity)
            else Num ((if neg then - 1 else 1) *
                      (if 52 \<le> e then of_nat n * 2 ^ nat (e - 52) else of_nat n / 2 ^ nat (52 - e)))))"

text \<open>
  \<^verbatim>\<open>parseInt(s)\<close> with no radix, after ECMAScript: leading white space and a sign are
  dropped, a prefix \<^verbatim>\<open>0x\<close> selects radix 16, and the longest run of digits that
  follows is the result, rounded to a double, whatever comes after it; no digit at all
  gives \<^verbatim>\<open>NaN\<close>.
\<close>

definition parseInt :: "string \<Rightarrow> number" where
  "parseInt s =
     (let (neg, u) = split_sign (dropWhile is_space s);
          hex = (take 2 u = ''0x'' \<or> take 2 u = ''0X'');
          radix = (if hex then 16 else 10);
          z = takeWhile (is_digit_in radix) (if hex then drop 2 u else u)
      in if z = [] then NaN else to_double neg (digits_value radix z) 1)"

text \<open>
  \<^verbatim>\<open>Number(s)\<close> for a string, after the grammar StringNumericLiteral of ECMAScript:
  the whole string, white space at both ends apart, must be a numeric literal. The
  empty string is 0; \<^verbatim>\<open>0x\<close>, \<^verbatim>\<open>0o\<close> and \<^verbatim>\<open>0b\<close> literals carry no sign; a decimal
  literal is a sign, then \<^verbatim>\<open>Infinity\<close> or digits with an optional fraction and an
  optional exponent.
\<close>

definition radix_literal :: "nat \<Rightarrow> string \<Rightarrow> number" where
  "radix_literal radix ds =
     (if ds = [] then NaN
      else if list_all (is_digit_in radix) ds then to_double False (digits_value radix ds) 1
      else NaN)"

definition exponent_part :: "string \<Rightarrow> int option" where
  "exponent_part r =
     (case r of
        [] \<Rightarrow> Some 0
      | c # cs \<Rightarrow>
          if c = CHR ''e'' \<or> c = CHR ''E'' then
            (let (neg, ds) = split_sign cs in
             if ds = [] then None
             else if list_all (is_digit_in 10) ds then
               Some ((if neg then - 1 else 1) * int (digits_value 10 ds))
             else None)
          else None)"

text \<open>
  The digits \<open>ip\<close> before and \<open>fp\<close> after the point, with the exponent \<open>k\<close>, denote
  the digits of \<open>ip @ fp\<close> times \<open>10^(k - length fp)\<close>.
\<close>

definition decimal_literal :: "string \<Rightarrow> number" where
  "decimal_literal t =
     (let (neg, u) = split_sign t in
      if u = ''Infinity'' then (if neg then NegInfinity else PosInfinity)
      else
        (let ip = takeWhile (is_digit_in 10) u;
             r1 = dropWhile (is_digit_in 10) u;
             dot = (take 1 r1 = ''.'');
             fp = (if dot then takeWhile (is_digit_in 10) (drop 1 r1) else []);
             r2 = (if dot then dropWhile (is_digit_in 10) (drop 1 r1) else r1)
         in if ip = [] \<and> fp = [] then NaN
            else (case exponent_part r2 of
                    None \<Rightarrow> NaN
                  | Some k \<Rightarrow>
                      (let m = digits_value 10 (ip @ fp); x = k - int (length fp) in
                       if 0 \<le> x then to_double neg (m * 10 ^ nat x) 1
                       else to_double neg m (10 ^ nat (- x))))))"

definition StringToNumber :: "string \<Rightarrow> number" where
  "StringToNumber s =
     (let t = trim s in
      if t = [] then Num 0
      else if take 2 t = ''0x'' \<or> take 2 t = ''0X'' then radix_literal 16 (drop 2 t)
      else if take 2 t = ''0o'' \<or> take 2 t = ''0O'' then radix_literal 8 (drop 2 t)
      else if take 2 t = ''0b'' \<or> take 2 t = ''0B'' then radix_literal 2 (drop 2 t)
      else decimal_literal t)"

subsection \<open>Planets\<close>

text \<open>
  An element of \<^verbatim>\<open>planets.results\<close> as the API documents it: every field the
  program reads is a string, and \<open>films\<close> is a list of URLs, or absent (\<open>None\<close>).
\<close>

record planet =
  name :: string
  population :: string
  diameter :: string
  climate :: string
  films :: "string list option"

definition PLANET_POPULATION_THRESHOLD :: rat where
  "PLANET_POPULATION_THRESHOLD = 1000000000"

definition PLANET_DIAMETER_THRESHOLD :: rat where
  "PLANET_DIAMETER_THRESHOLD = 10000"

text \<open>First copy, lines 108-122.\<close>

definition knownNumber :: "string \<Rightarrow> bool" where
  "knownNumber numberOrString =
     (numberOrString \<noteq> ''unknown'' \<and> \<not> Number_isNaN (StringToNumber numberOrString))"

definition hasLargePopulation :: "planet \<Rightarrow> bool" where
  "hasLargePopulation p =
     (knownNumber (population p) \<and>
      number_gt (StringToNumber (population p)) PLANET_POPULATION_THRESHOLD)"

definition hasLargeDiameter :: "planet \<Rightarrow> bool" where
  "hasLargeDiameter p =
     (knownNumber (diameter p) \<and>
      number_gt (StringToNumber (diameter p)) PLANET_DIAMETER_THRESHOLD)"

definition isBigPopulatedPlanet :: "planet \<Rightarrow> bool" where
  "isBigPopulatedPlanet p = (hasLargePopulation p \<and> hasLargeDiameter p)"

text \<open>The line printed for a planet (lines 129-131 and 407).\<close>

definition planet_line :: "planet \<Rightarrow> string" where
  "planet_line p =
     name p @ '' - Pop: '' @ population p @ '' - Diameter: '' @ diameter p @
     '' - Climate: '' @ climate p"

text \<open>
  \<^verbatim>\<open>displayLargePlanets\<close> of the first copy (lines 124-137), as the lines it prints
  for \<^verbatim>\<open>planets.results\<close>. The parameter \<^verbatim>\<open>films\<close> defaults to the empty array.
\<close>

definition print_planet_A :: "planet \<Rightarrow> string list" where
  "print_planet_A p =
     (let n = length (case films p of None \<Rightarrow> [] | Some fs \<Rightarrow> fs) in
      planet_line p #
      (if n = 0 then []
       else [''  Appears in '' @ show_nat n @ '' film'' @ (if n > 1 then ''s'' else [])]))"

definition displayLargePlanets_A :: "planet list \<Rightarrow> string list" where
  "displayLargePlanets_A results =
     (CHR 0x0A # ''Large populated planets:'') #
     concat (map print_planet_A (filter isBigPopulatedPlanet results))"

text \<open>\<^verbatim>\<open>displayLargePlanets\<close> of the second copy (lines 400-413).\<close>

definition selected_B :: "planet \<Rightarrow> bool" where
  "selected_B p =
     (population p \<noteq> ''unknown'' \<and> number_gt (parseInt (population p)) 1000000000 \<and>
      diameter p \<noteq> ''unknown'' \<and> number_gt (parseInt (diameter p)) 10000)"

definition print_planet_B :: "planet \<Rightarrow> string list" where
  "print_planet_B p =
     planet_line p #
     (case films p of
        None \<Rightarrow> []
      | Some fs \<Rightarrow>
          if length fs > 0 then [''  Appears in '' @ show_nat (length fs) @ '' films''] else [])"

definition displayLargePlanets_B :: "planet list \<Rightarrow> string list" where
  "displayLargePlanets_B results =
     (CHR 0x0A # ''Large populated planets:'') #
     concat (map (\<lambda>p. if selected_B p then print_planet_B p else []) results)"

section \<open>Observations and scenarios\<close>

text \<open>
  The names below belong to the statements of the theorems, not to the program.
\<close>

subsection \<open>Invocations in sequence\<close>

text \<open>
  \<open>n\<close> invocations of \<^verbatim>\<open>fetchStarWarsData\<close> one after the other, each of which runs
  the body of its \<^verbatim>\<open>try\<close> to the end: the state they leave, or \<open>None\<close> when one of
  them fails. \<open>run\<close> is the function of either copy.
\<close>

fun invocations :: "(state \<Rightarrow> outcome) \<Rightarrow> nat \<Rightarrow> state \<Rightarrow> state option" where
  "invocations run 0 s = Some s"
| "invocations run (Suc n) s =
     (case run s of
        Completed s1 \<Rightarrow> invocations run n s1
      | Handled s1 \<Rightarrow> None
      | Crashed s1 \<Rightarrow> None)"

subsection \<open>The vehicle fetches\<close>

definition vehicle_endpoint :: "nat \<Rightarrow> string" where
  "vehicle_endpoint k = ''vehicles/'' @ show_nat k"

definition is_vehicle_endpoint :: "string \<Rightarrow> bool" where
  "is_vehicle_endpoint endpoint = (take 9 endpoint = ''vehicles/'')"

text \<open>
  The calls of \<^verbatim>\<open>fetchFromApi\<close> for a vehicle so far, and the outbound requests for a
  vehicle so far.
\<close>

definition vehicle_calls :: "state \<Rightarrow> string list" where
  "vehicle_calls s = filter is_vehicle_endpoint (calls s)"

definition vehicle_requests :: "state \<Rightarrow> string list" where
  "vehicle_requests s = filter is_vehicle_endpoint (requests s)"

subsection \<open>Comparing statistics\<close>

definition stats_le :: "stats \<Rightarrow> stats \<Rightarrow> bool" where
  "stats_le a b =
     (api_calls a \<le> api_calls b \<and> data_size a \<le> data_size b \<and> errors a \<le> errors b \<and>
      cache_size a \<le> cache_size b)"

subsection \<open>What the process does between two fetches\<close>








subsection \<open>Example environments\<close>

text \<open>
  A remote side that answers every request with status 200: the three list endpoints
  with \<^verbatim>\<open>{"results":[]}\<close>, every other endpoint with \<^verbatim>\<open>{}\<close>.
\<close>

definition example_reply :: "string \<Rightarrow> reply" where
  "example_reply endpoint =
     Response 200 (Parsed (if endpoint \<in> set [''starships/?page=1'', ''planets/?page=1'', ''films/'']
                           then JObj [(''results'', JArr [])] else JObj []))"

text \<open>
  The environment of the examples, for a given remote side. The serialized lengths are
  those of the three values the examples meet: \<^verbatim>\<open>null\<close> (4), \<^verbatim>\<open>{}\<close> (2) and
  \<^verbatim>\<open>{"results":[]}\<close> (14). No display function throws: on \<^verbatim>\<open>{}\<close> the character and
  vehicle functions print \<^verbatim>\<open>undefined\<close> fields, and on \<^verbatim>\<open>{"results":[]}\<close> the list
  functions print their headings only.
\<close>

definition example_env :: "(nat \<Rightarrow> string \<Rightarrow> reply) \<Rightarrow> env" where
  "example_env r =
     \<lparr>remote = r,
      stringify_length = (\<lambda>v. if v = JNull then 4 else if v = JObj [] then 2 else 14),
      handler_throws = (\<lambda>h v. None)\<rparr>"

definition all_good :: env where
  "all_good = example_env (\<lambda>n. example_reply)"


text \<open>No request is ever answered.\<close>

definition no_response :: env where
  "no_response = example_env (\<lambda>n endpoint. NoResponse)"

text \<open>Every request is answered with status 200 and an HTML page.\<close>

definition html_body :: env where
  "html_body =
     example_env (\<lambda>n endpoint. Response 200 (Malformed ''Unexpected token < in JSON at position 0''))"

text \<open>Only the second request of the process is answered with an HTML page.\<close>

definition html_second :: env where
  "html_second =
     example_env (\<lambda>n endpoint.
       if n = 1 then Response 200 (Malformed ''Unexpected token < in JSON at position 0'')
       else example_reply endpoint)"

text \<open>A planet whose numbers carry a note and a unit.\<close>

definition garbled_planet :: planet where
  "garbled_planet =
     \<lparr>name = ''Coruscant'', population = ''1000000000000 (estimated)'', diameter = ''12240km'',
      climate = ''temperate'', films = None\<rparr>"

section \<open>Notions used in the proofs\<close>

text \<open>None of the four statistics is smaller in \<open>t\<close> than in \<open>s\<close>.\<close>

definition no_decrease :: "state \<Rightarrow> state \<Rightarrow> bool" where
  "no_decrease s t =
     (fetchCount s \<le> fetchCount t \<and> totalDataSize s \<le> totalDataSize t \<and>
      errorCount s \<le> errorCount t \<and>
      length (Object_keys (cache s)) \<le> length (Object_keys (cache t)))"

text \<open>
  A list of fetch-and-display steps in sequence, for either copy: the loop of the
  first copy, and the four steps the second copy writes out.
\<close>

fun steps ::
  "(string \<Rightarrow> handler \<Rightarrow> state \<Rightarrow> completion \<times> state) \<Rightarrow> (string \<times> handler) list \<Rightarrow> state \<Rightarrow>
   completion \<times> state" where
  "steps fd [] s = (Normal, s)"
| "steps fd ((endpoint, h) # ts) s = seq (fd endpoint h s) (steps fd ts)"

text \<open>The endpoints of the four fixed steps, for the character id in use.\<close>

definition fixed_endpoints :: "nat \<Rightarrow> string list" where
  "fixed_endpoints k = [''people/'' @ show_nat k, ''starships/?page=1'', ''planets/?page=1'', ''films/'']"

text \<open>From \<open>s\<close> to \<open>t\<close> the calls \<open>eps\<close> were added and the counters of the catch block kept.\<close>

definition adds_calls :: "state \<Rightarrow> string list \<Rightarrow> state \<Rightarrow> bool" where
  "adds_calls s eps t =
     (calls t = calls s @ eps \<and> lastCharacterId t = lastCharacterId s \<and>
      fetchCount t = fetchCount s \<and> errorCount t = errorCount s \<and> errorLog t = errorLog s)"

text \<open>What the vehicle step does, ending as \<open>c\<close>.\<close>

definition vehicle_effect :: "state \<Rightarrow> completion \<Rightarrow> state \<Rightarrow> bool" where
  "vehicle_effect s c t =
     (if lastCharacterId s \<le> 4
      then calls t = calls s @ [vehicle_endpoint (lastCharacterId s)] \<and>
           lastCharacterId t = (if c = Normal then lastCharacterId s + 1 else lastCharacterId s) \<and>
           fetchCount t = fetchCount s \<and> errorCount t = errorCount s \<and> errorLog t = errorLog s
      else c = Normal \<and> t = s)"

text \<open>What the body of the try does, ending as \<open>c\<close>; \<open>j\<close> is the character id of its first step.\<close>

definition body_effect :: "nat \<Rightarrow> state \<Rightarrow> completion \<Rightarrow> state \<Rightarrow> bool" where
  "body_effect j s c t =
     (fetchCount t = fetchCount s + 1 \<and> errorCount t = errorCount s \<and> errorLog t = errorLog s \<and>
      (c = Normal \<longrightarrow>
         calls t = calls s @ fixed_endpoints j @
           (if lastCharacterId s \<le> 4 then [vehicle_endpoint (lastCharacterId s)] else []) \<and>
         lastCharacterId t =
           (if lastCharacterId s \<le> 4 then lastCharacterId s + 1 else lastCharacterId s)) \<and>
      (4 < lastCharacterId s \<longrightarrow>
         lastCharacterId t = lastCharacterId s \<and> vehicle_calls t = vehicle_calls s))"

text \<open>What a completed invocation does to the rotating id and the vehicle calls.\<close>

definition rotates :: "(state \<Rightarrow> outcome) \<Rightarrow> bool" where
  "rotates run =
     (\<forall>s t. run s = Completed t \<longrightarrow>
        lastCharacterId t = (if lastCharacterId s \<le> 4 then lastCharacterId s + 1 else lastCharacterId s) \<and>
        vehicle_calls t =
          vehicle_calls s @ (if lastCharacterId s \<le> 4 then [vehicle_endpoint (lastCharacterId s)] else []))"

text \<open>
  From \<open>s\<close> to \<open>t\<close> only the cache entries of the endpoints \<open>eps\<close> may have changed,
  and only they were requested.
\<close>

definition touches :: "state \<Rightarrow> string list \<Rightarrow> state \<Rightarrow> bool" where
  "touches s eps t =
     ((\<forall>key. key \<notin> set eps \<longrightarrow> map_of (cache t) key = map_of (cache s) key) \<and>
      (\<exists>xs. requests t = requests s @ xs \<and> set xs \<subseteq> set eps))"

text \<open>The vehicles the rotating id has yet to reach are not in the cache.\<close>

definition fresh_vehicles :: "state \<Rightarrow> bool" where
  "fresh_vehicles s =
     (\<forall>k. lastCharacterId s \<le> k \<and> k \<le> 4 \<longrightarrow> map_of (cache s) (vehicle_endpoint k) = None)"

definition vehicle_touch :: "state \<Rightarrow> completion \<Rightarrow> state \<Rightarrow> bool" where
  "vehicle_touch s c t =
     (if lastCharacterId s \<le> 4
      then touches s [vehicle_endpoint (lastCharacterId s)] t \<and>
           (map_of (cache s) (vehicle_endpoint (lastCharacterId s)) = None \<longrightarrow>
              requests t = requests s @ [vehicle_endpoint (lastCharacterId s)])
      else t = s)"

definition issues_vehicle :: "state \<Rightarrow> state \<Rightarrow> bool" where
  "issues_vehicle s t =
     (fresh_vehicles t \<and>
      vehicle_requests t =
        vehicle_requests s @
        (if lastCharacterId s \<le> 4 then [vehicle_endpoint (lastCharacterId s)] else []))"

definition requests_rotate :: "(state \<Rightarrow> outcome) \<Rightarrow> bool" where
  "requests_rotate run =
     (\<forall>s t. run s = Completed t \<longrightarrow> fresh_vehicles s \<longrightarrow> issues_vehicle s t)"

text \<open>No response of the remote side has a body that \<^verbatim>\<open>JSON.parse\<close> rejects.\<close>

definition well_formed_bodies :: "env \<Rightarrow> bool" where
  "well_formed_bodies e = (\<forall>n endpoint code m. remote e n endpoint \<noteq> Response code (Malformed m))"


section \<open>Lemmas\<close>

subsection \<open>fetchFromApi and the cache\<close>

text \<open>
  A stored value is a hit exactly when it is truthy; a hit adds a call and no request,
  a miss adds a request; a call that resolves leaves its value in the cache.
\<close>

lemma cached_Some: "cached c k = Some v \<longleftrightarrow> map_of c k = Some v \<and> truthy v"
  by (auto simp: cached_def split: option.splits)

lemma fetchFromApi_A_hit:
  "cached (cache s) endpoint = Some v \<Longrightarrow>
   fetchFromApi_A e endpoint s = (Resolved v, s\<lparr>calls := calls s @ [endpoint]\<rparr>)"
  by (simp add: fetchFromApi_A_def)

lemma fetchFromApi_B_hit:
  "cached (cache s) endpoint = Some v \<Longrightarrow>
   fetchFromApi_B e endpoint s = (Resolved v, s\<lparr>calls := calls s @ [endpoint]\<rparr>)"
  by (simp add: fetchFromApi_B_def)

lemma fetchFromApi_A_miss_requests:
  "cached (cache s) endpoint = None \<Longrightarrow>
   requests (snd (fetchFromApi_A e endpoint s)) = requests s @ [endpoint]"
  by (simp add: fetchFromApi_A_def Let_def split: reply.splits body.splits)

lemma fetchFromApi_B_miss_requests:
  "cached (cache s) endpoint = None \<Longrightarrow>
   requests (snd (fetchFromApi_B e endpoint s)) = requests s @ [endpoint]"
  by (simp add: fetchFromApi_B_def Let_def split: reply.splits body.splits)



lemma falsy_values:
  "\<not> truthy v \<longleftrightarrow> v = JNull \<or> v = JBool False \<or> v = JNum 0 \<or> v = JStr []"
  by (cases v) auto

subsection \<open>No statistic decreases\<close>

text \<open>
  Step by step: a call of fetchFromApi, a fetch followed by its display function,
  statements in sequence, the loop, the vehicle step, the body of the try, the catch
  block, a request to the server, a sequence of requests.
\<close>

lemma no_decrease_refl: "no_decrease s s"
  by (simp add: no_decrease_def)

lemma no_decrease_trans: "no_decrease s t \<Longrightarrow> no_decrease t u \<Longrightarrow> no_decrease s u"
  by (auto simp: no_decrease_def)

lemma length_update_ge: "length al \<le> length (AList.update k v al)"
  by (induction al) auto

lemma fetchFromApi_A_no_decrease: "no_decrease s (snd (fetchFromApi_A e endpoint s))"
  by (simp add: fetchFromApi_A_def Let_def no_decrease_def Object_keys_def length_update_ge
      split: option.splits reply.splits body.splits)

lemma fetchFromApi_B_no_decrease: "no_decrease s (snd (fetchFromApi_B e endpoint s))"
  by (simp add: fetchFromApi_B_def Let_def no_decrease_def Object_keys_def length_update_ge
      split: option.splits reply.splits body.splits)

lemma fetch_and_display_A_no_decrease:
  "no_decrease s (snd (fetch_and_display_A e endpoint h s))"
proof -
  obtain r s1 where f: "fetchFromApi_A e endpoint s = (r, s1)"
    by (cases "fetchFromApi_A e endpoint s")
  with fetchFromApi_A_no_decrease[of s e endpoint] have "no_decrease s s1" by simp
  then show ?thesis
    by (cases r) (auto simp: fetch_and_display_A_def f Let_def no_decrease_def split: option.splits)
qed

lemma fetch_and_display_B_no_decrease:
  "no_decrease s (snd (fetch_and_display_B e endpoint h s))"
proof -
  obtain r s1 where f: "fetchFromApi_B e endpoint s = (r, s1)"
    by (cases "fetchFromApi_B e endpoint s")
  with fetchFromApi_B_no_decrease[of s e endpoint] have "no_decrease s s1" by simp
  then show ?thesis
    by (cases r) (auto simp: fetch_and_display_B_def f Let_def no_decrease_def split: option.splits)
qed

lemma seq_no_decrease:
  assumes "no_decrease s (snd p)" and "\<And>s1. no_decrease s1 (snd (f s1))"
  shows "no_decrease s (snd (seq p f))"
proof (cases p)
  case (Pair c s1)
  with assms show ?thesis
    by (cases c) (auto intro: no_decrease_trans)
qed

lemma for_tasks_A_no_decrease: "no_decrease s (snd (for_tasks_A e ts s))"
proof (induction ts arbitrary: s)
  case Nil
  show ?case by (simp add: no_decrease_refl)
next
  case (Cons t ts)
  obtain endpoint h where t: "t = (endpoint, h)" by (cases t)
  show ?case
    unfolding t for_tasks_A.simps
    by (rule seq_no_decrease) (rule fetch_and_display_A_no_decrease, rule Cons.IH)
qed

lemma increment_no_decrease:
  "no_decrease s1 (snd (Normal, s1\<lparr>lastCharacterId := lastCharacterId s1 + 1\<rparr>))"
  by (simp add: no_decrease_def)

lemma vehicle_step_A_no_decrease: "no_decrease s (snd (vehicle_step_A e s))"
proof (cases "lastCharacterId s \<le> 4")
  case True
  then show ?thesis
    unfolding vehicle_step_A_def maxlastCharacterId_def
    by (simp only: if_True)
      (rule seq_no_decrease, rule fetch_and_display_A_no_decrease, rule increment_no_decrease)
next
  case False
  then show ?thesis
    by (simp add: vehicle_step_A_def maxlastCharacterId_def no_decrease_refl)
qed

lemma vehicle_step_B_no_decrease: "no_decrease s (snd (vehicle_step_B e s))"
proof (cases "lastCharacterId s \<le> 4")
  case True
  then show ?thesis
    unfolding vehicle_step_B_def maxlastCharacterId_def
    by (simp only: if_True)
      (rule seq_no_decrease, rule fetch_and_display_B_no_decrease, rule increment_no_decrease)
next
  case False
  then show ?thesis
    by (simp add: vehicle_step_B_def maxlastCharacterId_def no_decrease_refl)
qed

lemma try_body_A_no_decrease: "no_decrease s (snd (try_body_A e s))"
proof -
  have "no_decrease s (s\<lparr>fetchCount := fetchCount s + 1\<rparr>)"
    by (simp add: no_decrease_def)
  moreover have "no_decrease (s\<lparr>fetchCount := fetchCount s + 1\<rparr>) (snd (try_body_A e s))"
    unfolding try_body_A_def Let_def
    by (intro seq_no_decrease for_tasks_A_no_decrease vehicle_step_A_no_decrease)
  ultimately show ?thesis by (rule no_decrease_trans)
qed

lemma try_body_B_no_decrease: "no_decrease s (snd (try_body_B e s))"
proof -
  have "no_decrease s (s\<lparr>fetchCount := fetchCount s + 1\<rparr>)"
    by (simp add: no_decrease_def)
  moreover have "no_decrease (s\<lparr>fetchCount := fetchCount s + 1\<rparr>) (snd (try_body_B e s))"
    unfolding try_body_B_def Let_def
    by (intro seq_no_decrease fetch_and_display_B_no_decrease vehicle_step_B_no_decrease)
  ultimately show ?thesis by (rule no_decrease_trans)
qed

lemma catch_block_no_decrease: "no_decrease (snd p) (state_of (catch_block p))"
proof (cases p)
  case (Pair c s1)
  then show ?thesis
    by (cases c) (auto simp: no_decrease_def handleError_def)
qed

lemma fetchStarWarsData_A_no_decrease: "no_decrease s (state_of (fetchStarWarsData_A e s))"
  unfolding fetchStarWarsData_A_def
  by (rule no_decrease_trans[OF try_body_A_no_decrease catch_block_no_decrease])

lemma fetchStarWarsData_B_no_decrease: "no_decrease s (state_of (fetchStarWarsData_B e s))"
  unfolding fetchStarWarsData_B_def
  by (rule no_decrease_trans[OF try_body_B_no_decrease catch_block_no_decrease])

lemma last_state_after_run: "last_state (after_run out) = state_of out"
  by (cases out) auto

lemma listener_A_no_decrease: "no_decrease s (last_state (snd (listener_A e url s)))"
  by (simp add: listener_A_def no_decrease_refl last_state_after_run fetchStarWarsData_A_no_decrease)

lemma listener_B_no_decrease: "no_decrease s (last_state (snd (listener_B e url s)))"
  by (simp add: listener_B_def no_decrease_refl last_state_after_run fetchStarWarsData_B_no_decrease)

lemma startServer_A_no_decrease: "no_decrease s (last_state (startServer_A e urls s))"
proof (induction urls arbitrary: s)
  case Nil
  show ?case by (simp add: no_decrease_refl)
next
  case (Cons url urls)
  show ?case
  proof (cases "snd (listener_A e url s)")
    case (Running s1)
    with listener_A_no_decrease[of s e url] have "no_decrease s s1" by simp
    with Cons.IH[of s1] Running show ?thesis by (auto intro: no_decrease_trans)
  next
    case (Terminated s1)
    with listener_A_no_decrease[of s e url] show ?thesis by simp
  qed
qed

lemma startServer_B_no_decrease: "no_decrease s (last_state (startServer_B e urls s))"
proof (induction urls arbitrary: s)
  case Nil
  show ?case by (simp add: no_decrease_refl)
next
  case (Cons url urls)
  show ?case
  proof (cases "snd (listener_B e url s)")
    case (Running s1)
    with listener_B_no_decrease[of s e url] have "no_decrease s s1" by simp
    with Cons.IH[of s1] Running show ?thesis by (auto intro: no_decrease_trans)
  next
    case (Terminated s1)
    with listener_B_no_decrease[of s e url] show ?thesis by simp
  qed
qed

subsection \<open>The calls of an invocation\<close>

text \<open>
  What a fetch leaves alone; the loop of the first copy and the four steps of the
  second as one list of steps; the calls that the steps, the vehicle step and the
  whole body add.
\<close>

lemma fetchFromApi_A_frame:
  assumes "fetchFromApi_A e endpoint s = (r, s1)"
  shows "calls s1 = calls s @ [endpoint] \<and> lastCharacterId s1 = lastCharacterId s \<and>
         fetchCount s1 = fetchCount s \<and> errorCount s1 = errorCount s \<and>
         errorLog s1 = errorLog s \<and> totalDataSize s1 = totalDataSize s"
  using assms
  by (auto simp: fetchFromApi_A_def Let_def split: option.splits reply.splits body.splits if_splits)

lemma fetchFromApi_B_frame:
  assumes "fetchFromApi_B e endpoint s = (r, s1)"
  shows "calls s1 = calls s @ [endpoint] \<and> lastCharacterId s1 = lastCharacterId s \<and>
         fetchCount s1 = fetchCount s \<and> errorCount s1 = errorCount s \<and>
         errorLog s1 = errorLog s \<and> totalDataSize s1 = totalDataSize s"
  using assms
  by (auto simp: fetchFromApi_B_def Let_def split: option.splits reply.splits body.splits if_splits)

lemma fetch_and_display_A_frame:
  assumes "fetch_and_display_A e endpoint h s = (c, s2)"
  shows "calls s2 = calls s @ [endpoint] \<and> lastCharacterId s2 = lastCharacterId s \<and>
         fetchCount s2 = fetchCount s \<and> errorCount s2 = errorCount s \<and>
         errorLog s2 = errorLog s"
proof -
  obtain r s1 where f: "fetchFromApi_A e endpoint s = (r, s1)"
    by (cases "fetchFromApi_A e endpoint s")
  from fetchFromApi_A_frame[OF f] assms show ?thesis
    by (cases r) (auto simp: fetch_and_display_A_def f Let_def split: option.splits)
qed

lemma fetch_and_display_B_frame:
  assumes "fetch_and_display_B e endpoint h s = (c, s2)"
  shows "calls s2 = calls s @ [endpoint] \<and> lastCharacterId s2 = lastCharacterId s \<and>
         fetchCount s2 = fetchCount s \<and> errorCount s2 = errorCount s \<and>
         errorLog s2 = errorLog s"
proof -
  obtain r s1 where f: "fetchFromApi_B e endpoint s = (r, s1)"
    by (cases "fetchFromApi_B e endpoint s")
  from fetchFromApi_B_frame[OF f] assms show ?thesis
    by (cases r) (auto simp: fetch_and_display_B_def f Let_def split: option.splits)
qed

lemma seq_cases:
  assumes "seq p f = (c, t)"
  obtains (stopped) "p = (c, t)" "c \<noteq> Normal"
  | (continued) s1 where "p = (Normal, s1)" "f s1 = (c, t)"
proof (cases p)
  case (Pair c1 s1)
  with assms show ?thesis
    by (cases c1) (auto intro: stopped continued)
qed

lemma for_tasks_A_steps: "for_tasks_A e ts = steps (fetch_and_display_A e) ts"
proof (induction ts)
  case Nil
  show ?case by (rule ext) simp
next
  case (Cons a ts)
  show ?case by (rule ext) (cases a, simp add: Cons.IH)
qed

lemma seq_assoc: "seq (seq p f) g = seq p (\<lambda>s. seq (f s) g)"
proof (cases p)
  case (Pair c s)
  then show ?thesis by (cases c) auto
qed

lemma seq_Normal_right: "seq p (\<lambda>s. (Normal, s)) = p"
proof (cases p)
  case (Pair c s)
  then show ?thesis by (cases c) auto
qed

lemma try_body_B_steps:
  "try_body_B e s =
     seq (steps (fetch_and_display_B e)
            [(''people/'' @ show_nat (lastCharacterId s), DisplayCharacterDetails),
             (''starships/?page=1'', DisplayStarships),
             (''planets/?page=1'', DisplayLargePlanets),
             (''films/'', DisplayFilmsChronologically)]
            (s\<lparr>fetchCount := fetchCount s + 1\<rparr>))
       (vehicle_step_B e)"
  by (simp add: try_body_B_def Let_def seq_assoc seq_Normal_right)

lemma steps_calls:
  assumes frame: "\<And>endpoint h s c t. fd endpoint h s = (c, t) \<Longrightarrow> adds_calls s [endpoint] t"
    and "steps fd ts s = (c, t)"
  shows "\<exists>k. k \<le> length ts \<and> (c = Normal \<longrightarrow> k = length ts) \<and>
             adds_calls s (take k (map fst ts)) t"
  using assms(2)
proof (induction ts arbitrary: s)
  case Nil
  then show ?case by (simp add: adds_calls_def)
next
  case (Cons a ts)
  obtain endpoint h where a: "a = (endpoint, h)" by (cases a)
  from Cons.prems have q: "seq (fd endpoint h s) (steps fd ts) = (c, t)"
    by (simp add: a)
  from q show ?case
  proof (cases rule: seq_cases)
    case stopped
    from frame[OF stopped(1)] stopped(2) show ?thesis
      by (intro exI[of _ 1]) (simp add: adds_calls_def a)
  next
    case (continued s1)
    from Cons.IH[OF continued(2)] obtain k where
      k: "k \<le> length ts" "c = Normal \<longrightarrow> k = length ts" "adds_calls s1 (take k (map fst ts)) t"
      by blast
    from frame[OF continued(1)] k show ?thesis
      by (intro exI[of _ "Suc k"]) (simp add: adds_calls_def a)
  qed
qed

lemma fetch_and_display_A_adds: "fetch_and_display_A e endpoint h s = (c, t) \<Longrightarrow> adds_calls s [endpoint] t"
  using fetch_and_display_A_frame[of e endpoint h s c t] by (simp add: adds_calls_def)

lemma fetch_and_display_B_adds: "fetch_and_display_B e endpoint h s = (c, t) \<Longrightarrow> adds_calls s [endpoint] t"
  using fetch_and_display_B_frame[of e endpoint h s c t] by (simp add: adds_calls_def)

lemma vehicle_step_A_effect:
  assumes "vehicle_step_A e s = (c, t)"
  shows "vehicle_effect s c t"
proof (cases "lastCharacterId s \<le> 4")
  case True
  with assms have q: "seq (fetch_and_display_A e (vehicle_endpoint (lastCharacterId s)) DisplayVehicle s)
      (\<lambda>s1. (Normal, s1\<lparr>lastCharacterId := lastCharacterId s1 + 1\<rparr>)) = (c, t)"
    by (simp add: vehicle_step_A_def maxlastCharacterId_def vehicle_endpoint_def)
  from q show ?thesis
  proof (cases rule: seq_cases)
    case stopped
    from fetch_and_display_A_frame[OF stopped(1)] stopped(2) True show ?thesis
      by (simp add: vehicle_effect_def)
  next
    case (continued s1)
    from fetch_and_display_A_frame[OF continued(1)] continued(2) True show ?thesis
      by (auto simp: vehicle_effect_def)
  qed
next
  case False
  with assms show ?thesis by (simp add: vehicle_step_A_def maxlastCharacterId_def vehicle_effect_def)
qed

lemma vehicle_step_B_effect:
  assumes "vehicle_step_B e s = (c, t)"
  shows "vehicle_effect s c t"
proof (cases "lastCharacterId s \<le> 4")
  case True
  with assms have q: "seq (fetch_and_display_B e (vehicle_endpoint (lastCharacterId s)) DisplayVehicle s)
      (\<lambda>s1. (Normal, s1\<lparr>lastCharacterId := lastCharacterId s1 + 1\<rparr>)) = (c, t)"
    by (simp add: vehicle_step_B_def vehicle_endpoint_def)
  from q show ?thesis
  proof (cases rule: seq_cases)
    case stopped
    from fetch_and_display_B_frame[OF stopped(1)] stopped(2) True show ?thesis
      by (simp add: vehicle_effect_def)
  next
    case (continued s1)
    from fetch_and_display_B_frame[OF continued(1)] continued(2) True show ?thesis
      by (auto simp: vehicle_effect_def)
  qed
next
  case False
  with assms show ?thesis by (simp add: vehicle_step_B_def vehicle_effect_def)
qed

lemma tasks_endpoints: "map fst tasks = fixed_endpoints 1"
  by (simp add: tasks_def fixed_endpoints_def initial_state_def)

lemma no_vehicle_fixed: "filter is_vehicle_endpoint (take k (fixed_endpoints j)) = []"
proof -
  have "filter is_vehicle_endpoint (fixed_endpoints j) = []"
    by (simp add: fixed_endpoints_def is_vehicle_endpoint_def)
  then have "\<forall>x \<in> set (fixed_endpoints j). \<not> is_vehicle_endpoint x"
    by (simp add: filter_empty_conv)
  then have "\<forall>x \<in> set (take k (fixed_endpoints j)). \<not> is_vehicle_endpoint x"
    by (meson in_set_takeD)
  then show ?thesis by (simp add: filter_empty_conv)
qed

lemma is_vehicle_vehicle_endpoint: "is_vehicle_endpoint (vehicle_endpoint k)"
  by (simp add: is_vehicle_endpoint_def vehicle_endpoint_def)

lemma body_effectI:
  assumes adds: "k \<le> length ts" "c1 = Normal \<longrightarrow> k = length ts"
      "adds_calls (s\<lparr>fetchCount := fetchCount s + 1\<rparr>) (take k (map fst ts)) s1"
    and ts: "map fst ts = fixed_endpoints j"
    and veh: "\<And>s c t. vs s = (c, t) \<Longrightarrow> vehicle_effect s c t"
    and body: "seq (c1, s1) vs = (c, t)"
  shows "body_effect j s c t"
proof -
  from adds have k: "adds_calls (s\<lparr>fetchCount := fetchCount s + 1\<rparr>) (take k (fixed_endpoints j)) s1"
    by (simp add: ts)
  from body show ?thesis
  proof (cases rule: seq_cases)
    case stopped
    with k show ?thesis
      by (auto simp: body_effect_def adds_calls_def vehicle_calls_def no_vehicle_fixed)
  next
    case (continued s1')
    then have c1: "c1 = Normal" and s1': "s1' = s1" by auto
    from adds c1 ts have kl: "take k (fixed_endpoints j) = fixed_endpoints j"
      by (metis length_map order_refl take_all)
    have nv: "filter is_vehicle_endpoint (fixed_endpoints j) = []"
      using no_vehicle_fixed[of "length (fixed_endpoints j)" j] by simp
    from veh[OF continued(2)] k show ?thesis
      unfolding s1' kl
      by (auto simp: body_effect_def vehicle_effect_def adds_calls_def vehicle_calls_def nv
          split: if_splits)
  qed
qed

lemma try_body_A_effect:
  assumes "try_body_A e s = (c, t)"
  shows "body_effect 1 s c t"
proof -
  obtain c1 s1 where f: "steps (fetch_and_display_A e) tasks (s\<lparr>fetchCount := fetchCount s + 1\<rparr>) = (c1, s1)"
    by (cases "steps (fetch_and_display_A e) tasks (s\<lparr>fetchCount := fetchCount s + 1\<rparr>)")
  have "\<exists>k. k \<le> length tasks \<and> (c1 = Normal \<longrightarrow> k = length tasks) \<and>
      adds_calls (s\<lparr>fetchCount := fetchCount s + 1\<rparr>) (take k (map fst tasks)) s1"
    by (rule steps_calls[OF _ f]) (rule fetch_and_display_A_adds)
  then obtain k where
    k: "k \<le> length tasks" "c1 = Normal \<longrightarrow> k = length tasks"
      "adds_calls (s\<lparr>fetchCount := fetchCount s + 1\<rparr>) (take k (map fst tasks)) s1"
    by blast
  from assms f have b: "seq (c1, s1) (vehicle_step_A e) = (c, t)"
    by (simp add: try_body_A_def Let_def for_tasks_A_steps)
  show ?thesis
    by (rule body_effectI[OF k tasks_endpoints vehicle_step_A_effect b])
qed

lemma try_body_B_effect:
  assumes "try_body_B e s = (c, t)"
  shows "body_effect (lastCharacterId s) s c t"
proof -
  let ?ts = "[(''people/'' @ show_nat (lastCharacterId s), DisplayCharacterDetails),
             (''starships/?page=1'', DisplayStarships),
             (''planets/?page=1'', DisplayLargePlanets),
             (''films/'', DisplayFilmsChronologically)]"
  obtain c1 s1 where f: "steps (fetch_and_display_B e) ?ts (s\<lparr>fetchCount := fetchCount s + 1\<rparr>) = (c1, s1)"
    by (cases "steps (fetch_and_display_B e) ?ts (s\<lparr>fetchCount := fetchCount s + 1\<rparr>)")
  have "\<exists>k. k \<le> length ?ts \<and> (c1 = Normal \<longrightarrow> k = length ?ts) \<and>
      adds_calls (s\<lparr>fetchCount := fetchCount s + 1\<rparr>) (take k (map fst ?ts)) s1"
    by (rule steps_calls[OF _ f]) (rule fetch_and_display_B_adds)
  then obtain k where
    k: "k \<le> length ?ts" "c1 = Normal \<longrightarrow> k = length ?ts"
      "adds_calls (s\<lparr>fetchCount := fetchCount s + 1\<rparr>) (take k (map fst ?ts)) s1"
    by blast
  have ts: "map fst ?ts = fixed_endpoints (lastCharacterId s)"
    by (simp add: fixed_endpoints_def)
  from assms have b: "seq (c1, s1) (vehicle_step_B e) = (c, t)"
    unfolding try_body_B_steps f .
  show ?thesis
    by (rule body_effectI[OF k ts vehicle_step_B_effect b])
qed

subsection \<open>Completed invocations\<close>

text \<open>
  An invocation that completes moves the rotating id by one while it is at most 4 and
  adds the vehicle call of the old id.
\<close>

lemma catch_block_Completed: "catch_block p = Completed t \<longleftrightarrow> p = (Normal, t)"
proof (cases p)
  case (Pair c s)
  then show ?thesis by (cases c) auto
qed

lemma catch_block_frame:
  "lastCharacterId (state_of (catch_block p)) = lastCharacterId (snd p) \<and>
   calls (state_of (catch_block p)) = calls (snd p) \<and>
   fetchCount (state_of (catch_block p)) = fetchCount (snd p)"
proof (cases p)
  case (Pair c s)
  then show ?thesis by (cases c) (auto simp: handleError_def)
qed

lemma body_effect_rotates:
  assumes "body_effect j s Normal t"
  shows "lastCharacterId t = (if lastCharacterId s \<le> 4 then lastCharacterId s + 1 else lastCharacterId s) \<and>
        vehicle_calls t =
          vehicle_calls s @ (if lastCharacterId s \<le> 4 then [vehicle_endpoint (lastCharacterId s)] else [])"
proof -
  have nv: "filter is_vehicle_endpoint (fixed_endpoints j) = []"
    using no_vehicle_fixed[of "length (fixed_endpoints j)" j] by simp
  from assms show ?thesis
    by (simp add: body_effect_def vehicle_calls_def nv is_vehicle_vehicle_endpoint)
qed

lemma rotates_A: "rotates (fetchStarWarsData_A e)"
  unfolding rotates_def fetchStarWarsData_A_def catch_block_Completed
  using try_body_A_effect body_effect_rotates by blast

lemma rotates_B: "rotates (fetchStarWarsData_B e)"
  unfolding rotates_def fetchStarWarsData_B_def catch_block_Completed
  using try_body_B_effect body_effect_rotates by blast

lemma invocations_rotate:
  assumes "rotates run" and "invocations run n s = Some t"
  shows "lastCharacterId t = max (lastCharacterId s) (min (lastCharacterId s + n) 5) \<and>
         vehicle_calls t =
           vehicle_calls s @ map vehicle_endpoint [lastCharacterId s ..< min (lastCharacterId s + n) 5]"
  using assms(2)
proof (induction n arbitrary: s)
  case 0
  then show ?case by simp
next
  case (Suc n)
  from Suc.prems obtain s1 where r: "run s = Completed s1" and i: "invocations run n s1 = Some t"
    by (auto split: outcome.splits)
  from assms(1) r have
    s1: "lastCharacterId s1 = (if lastCharacterId s \<le> 4 then lastCharacterId s + 1 else lastCharacterId s)"
      "vehicle_calls s1 =
        vehicle_calls s @ (if lastCharacterId s \<le> 4 then [vehicle_endpoint (lastCharacterId s)] else [])"
    by (auto simp: rotates_def)
  show ?case
  proof (cases "lastCharacterId s \<le> 4")
    case True
    then have lt: "lastCharacterId s < min (lastCharacterId s + Suc n) 5"
      by simp
    have m: "min (lastCharacterId s + Suc n) 5 = min (lastCharacterId s + 1 + n) 5"
      by simp
    have "[lastCharacterId s ..< min (lastCharacterId s + Suc n) 5] =
        lastCharacterId s # [lastCharacterId s + 1 ..< min (lastCharacterId s + 1 + n) 5]"
      using upt_conv_Cons[OF lt] unfolding m by simp
    moreover from True have
      "max (lastCharacterId s) (min (lastCharacterId s + Suc n) 5) =
       max (lastCharacterId s + 1) (min (lastCharacterId s + 1 + n) 5)"
      by simp
    ultimately show ?thesis
      using Suc.IH[OF i] s1 True by simp
  next
    case False
    with Suc.IH[OF i] s1 show ?thesis by auto
  qed
qed

subsection \<open>Past the ceiling of the rotating id\<close>

text \<open>
  With the id above 4 no invocation, completed or failed, changes the id or adds a
  vehicle call.
\<close>

lemma run_past_ceiling:
  assumes "4 < lastCharacterId s" and "body_effect j s c t"
  shows "lastCharacterId (state_of (catch_block (c, t))) = lastCharacterId s \<and>
         vehicle_calls (state_of (catch_block (c, t))) = vehicle_calls s"
  using assms catch_block_frame[of "(c, t)"]
  by (simp add: body_effect_def vehicle_calls_def)

lemma fetchStarWarsData_A_past_ceiling:
  assumes "4 < lastCharacterId s"
  shows "lastCharacterId (state_of (fetchStarWarsData_A e s)) = lastCharacterId s \<and>
         vehicle_calls (state_of (fetchStarWarsData_A e s)) = vehicle_calls s"
proof -
  obtain c t where a: "try_body_A e s = (c, t)" by (cases "try_body_A e s")
  from run_past_ceiling[OF assms try_body_A_effect[OF a]] show ?thesis
    by (simp add: fetchStarWarsData_A_def a)
qed

lemma fetchStarWarsData_B_past_ceiling:
  assumes "4 < lastCharacterId s"
  shows "lastCharacterId (state_of (fetchStarWarsData_B e s)) = lastCharacterId s \<and>
         vehicle_calls (state_of (fetchStarWarsData_B e s)) = vehicle_calls s"
proof -
  obtain c t where a: "try_body_B e s = (c, t)" by (cases "try_body_B e s")
  from run_past_ceiling[OF assms try_body_B_effect[OF a]] show ?thesis
    by (simp add: fetchStarWarsData_B_def a)
qed

lemma listener_A_past_ceiling:
  assumes "4 < lastCharacterId s"
  shows "lastCharacterId (last_state (snd (listener_A e url s))) = lastCharacterId s \<and>
         vehicle_calls (last_state (snd (listener_A e url s))) = vehicle_calls s"
  using fetchStarWarsData_A_past_ceiling[OF assms, of e]
  by (simp add: listener_A_def last_state_after_run)

lemma listener_B_past_ceiling:
  assumes "4 < lastCharacterId s"
  shows "lastCharacterId (last_state (snd (listener_B e url s))) = lastCharacterId s \<and>
         vehicle_calls (last_state (snd (listener_B e url s))) = vehicle_calls s"
  using fetchStarWarsData_B_past_ceiling[OF assms, of e]
  by (simp add: listener_B_def last_state_after_run)

lemma startServer_A_past_ceiling:
  assumes "4 < lastCharacterId s"
  shows "lastCharacterId (last_state (startServer_A e urls s)) = lastCharacterId s \<and>
         vehicle_calls (last_state (startServer_A e urls s)) = vehicle_calls s"
  using assms
proof (induction urls arbitrary: s)
  case Nil
  show ?case by simp
next
  case (Cons url urls)
  show ?case
  proof (cases "snd (listener_A e url s)")
    case (Running s1)
    with listener_A_past_ceiling[OF Cons.prems, of e url]
    have s1: "lastCharacterId s1 = lastCharacterId s" "vehicle_calls s1 = vehicle_calls s"
      by simp_all
    with Cons.prems have "4 < lastCharacterId s1" by simp
    from Cons.IH[OF this] s1 Running show ?thesis by simp
  next
    case (Terminated s1)
    with listener_A_past_ceiling[OF Cons.prems, of e url] show ?thesis by simp
  qed
qed

lemma startServer_B_past_ceiling:
  assumes "4 < lastCharacterId s"
  shows "lastCharacterId (last_state (startServer_B e urls s)) = lastCharacterId s \<and>
         vehicle_calls (last_state (startServer_B e urls s)) = vehicle_calls s"
  using assms
proof (induction urls arbitrary: s)
  case Nil
  show ?case by simp
next
  case (Cons url urls)
  show ?case
  proof (cases "snd (listener_B e url s)")
    case (Running s1)
    with listener_B_past_ceiling[OF Cons.prems, of e url]
    have s1: "lastCharacterId s1 = lastCharacterId s" "vehicle_calls s1 = vehicle_calls s"
      by simp_all
    with Cons.prems have "4 < lastCharacterId s1" by simp
    from Cons.IH[OF this] s1 Running show ?thesis by simp
  next
    case (Terminated s1)
    with listener_B_past_ceiling[OF Cons.prems, of e url] show ?thesis by simp
  qed
qed

subsection \<open>Uncaught exceptions, failures and the planet filter\<close>

text \<open>
  The second copy never dies of an uncaught exception, the first only on a malformed
  body; what each kind of failed request does in either copy; a failure that reaches
  the catch block is counted and logged once; which planets either copy excludes.
\<close>

lemma seq_not_Died:
  assumes "fst p \<noteq> Died x" and "\<And>s. fst (f s) \<noteq> Died x"
  shows "fst (seq p f) \<noteq> Died x"
proof (cases p)
  case (Pair c s)
  with assms show ?thesis by (cases c) auto
qed

lemma steps_not_Died:
  assumes "\<And>endpoint h s. fst (fd endpoint h s) \<noteq> Died x"
  shows "fst (steps fd ts s) \<noteq> Died x"
proof (induction ts arbitrary: s)
  case Nil
  show ?case by simp
next
  case (Cons a ts)
  obtain endpoint h where a: "a = (endpoint, h)" by (cases a)
  show ?case
    unfolding a steps.simps
    by (rule seq_not_Died) (rule assms, rule Cons.IH)
qed

lemma fetch_and_display_B_not_Died: "fst (fetch_and_display_B e endpoint h s) \<noteq> Died x"
  by (simp add: fetch_and_display_B_def fetchFromApi_B_def Let_def
      split: option.splits reply.splits body.splits)

lemma vehicle_step_B_not_Died: "fst (vehicle_step_B e s) \<noteq> Died x"
  unfolding vehicle_step_B_def
  by (simp add: seq_not_Died fetch_and_display_B_not_Died)

lemma try_body_B_not_Died: "fst (try_body_B e s) \<noteq> Died x"
  unfolding try_body_B_steps
  by (intro seq_not_Died steps_not_Died fetch_and_display_B_not_Died vehicle_step_B_not_Died)

lemma catch_block_Crashed: "catch_block p = Crashed t \<longleftrightarrow> (\<exists>x. p = (Died x, t))"
proof (cases p)
  case (Pair c s)
  then show ?thesis by (cases c) auto
qed

lemma copy_B_never_crashes: "fetchStarWarsData_B e s \<noteq> Crashed t"
proof
  assume "fetchStarWarsData_B e s = Crashed t"
  then obtain x where "try_body_B e s = (Died x, t)"
    by (auto simp: fetchStarWarsData_B_def catch_block_Crashed)
  with try_body_B_not_Died[of e s x] show False by simp
qed

lemma fetch_and_display_A_not_Died:
  assumes "well_formed_bodies e"
  shows "fst (fetch_and_display_A e endpoint h s) \<noteq> Died x"
  using assms
  by (auto simp: well_formed_bodies_def fetch_and_display_A_def fetchFromApi_A_def Let_def
      split: option.splits reply.splits body.splits)

lemma vehicle_step_A_not_Died:
  assumes "well_formed_bodies e"
  shows "fst (vehicle_step_A e s) \<noteq> Died x"
  unfolding vehicle_step_A_def
  by (simp add: seq_not_Died fetch_and_display_A_not_Died[OF assms])

lemma try_body_A_not_Died:
  assumes "well_formed_bodies e"
  shows "fst (try_body_A e s) \<noteq> Died x"
  unfolding try_body_A_def Let_def for_tasks_A_steps
  by (intro seq_not_Died steps_not_Died fetch_and_display_A_not_Died[OF assms]
      vehicle_step_A_not_Died[OF assms])

lemma copy_A_crashes_only_on_malformed_body:
  assumes "well_formed_bodies e"
  shows "fetchStarWarsData_A e s \<noteq> Crashed t"
proof
  assume "fetchStarWarsData_A e s = Crashed t"
  then obtain x where "try_body_A e s = (Died x, t)"
    by (auto simp: fetchStarWarsData_A_def catch_block_Crashed)
  with try_body_A_not_Died[OF assms, of s x] show False by simp
qed

lemma fetchFromApi_failures:
  assumes "cached (cache s) endpoint = None"
    and "s1 = s\<lparr>calls := calls s @ [endpoint], requests := requests s @ [endpoint]\<rparr>"
  shows "remote e (length (requests s)) endpoint = NoResponse \<Longrightarrow>
           fetchFromApi_A e endpoint s = (Rejected (RequestTimeout endpoint), s1) \<and>
           fetchFromApi_B e endpoint s = (Rejected (RequestTimeout endpoint), s1)"
    and "remote e (length (requests s)) endpoint = Response code b \<Longrightarrow> 400 \<le> code \<Longrightarrow>
           fetchFromApi_A e endpoint s = (Rejected (RequestFailed code), s1) \<and>
           fetchFromApi_B e endpoint s = (Rejected (RequestFailed code), s1)"
    and "remote e (length (requests s)) endpoint = Response code (Malformed m) \<Longrightarrow> code < 400 \<Longrightarrow>
           fetchFromApi_A e endpoint s = (Uncaught (SyntaxError m), s1) \<and>
           fetchFromApi_B e endpoint s = (Rejected (SyntaxError m), s1)"
    and "remote e (length (requests s)) endpoint = SocketError m \<Longrightarrow>
           fetchFromApi_A e endpoint s = (Rejected (RequestError m), s1) \<and>
           fetchFromApi_B e endpoint s = (Rejected (RequestError m), s1)"
  using assms
  by (simp_all add: fetchFromApi_A_def fetchFromApi_B_def Let_def BAD_REQUEST_def)

lemma failure_writes_no_cache_entry:
  "(\<exists>v. fst (fetchFromApi_A e endpoint s) = Resolved v) \<or>
     cache (snd (fetchFromApi_A e endpoint s)) = cache s"
  "(\<exists>v. fst (fetchFromApi_B e endpoint s) = Resolved v) \<or>
     cache (snd (fetchFromApi_B e endpoint s)) = cache s"
  by (auto simp: fetchFromApi_A_def fetchFromApi_B_def Let_def
      split: option.splits reply.splits body.splits if_splits)

lemma failure_handled_once_A:
  assumes "try_body_A e s = (Threw x, t)"
  shows "fetchStarWarsData_A e s = Handled (handleError (message x) t)"
    and "errorCount (handleError (message x) t) = errorCount s + 1"
    and "errorLog (handleError (message x) t) = errorLog s @ [''Error: '' @ message x]"
    and "fetchCount (handleError (message x) t) = fetchCount s + 1"
    and "cache (handleError (message x) t) = cache t"
    and "totalDataSize (handleError (message x) t) = totalDataSize t"
  using try_body_A_effect[OF assms]
  by (simp_all add: fetchStarWarsData_A_def assms body_effect_def handleError_def)

lemma failure_handled_once_B:
  assumes "try_body_B e s = (c, t)" and "c \<noteq> Normal"
  shows "\<exists>x. c = Threw x \<and>
           fetchStarWarsData_B e s = Handled (handleError (message x) t) \<and>
           errorCount (handleError (message x) t) = errorCount s + 1 \<and>
           errorLog (handleError (message x) t) = errorLog s @ [''Error: '' @ message x] \<and>
           fetchCount (handleError (message x) t) = fetchCount s + 1 \<and>
           cache (handleError (message x) t) = cache t \<and>
           totalDataSize (handleError (message x) t) = totalDataSize t"
proof (cases c)
  case Normal
  with assms show ?thesis by simp
next
  case (Threw x)
  with try_body_B_effect[OF assms(1)] assms(1) show ?thesis
    by (simp add: fetchStarWarsData_B_def body_effect_def handleError_def)
next
  case (Died x)
  with try_body_B_not_Died[of e s x] assms(1) show ?thesis by simp
qed

lemma copy_A_excludes_unknown_and_non_numeric:
  assumes "population p = ''unknown'' \<or> Number_isNaN (StringToNumber (population p)) \<or>
           diameter p = ''unknown'' \<or> Number_isNaN (StringToNumber (diameter p))"
  shows "\<not> isBigPopulatedPlanet p"
  using assms
  by (auto simp: isBigPopulatedPlanet_def hasLargePopulation_def hasLargeDiameter_def knownNumber_def)

lemma copy_A_prints_no_excluded_planet:
  "displayLargePlanets_A results =
   displayLargePlanets_A (filter (\<lambda>p. knownNumber (population p) \<and> knownNumber (diameter p)) results)"
proof -
  have "filter isBigPopulatedPlanet (filter (\<lambda>p. knownNumber (population p) \<and> knownNumber (diameter p)) results)
      = filter isBigPopulatedPlanet results"
    by (auto simp: isBigPopulatedPlanet_def hasLargePopulation_def hasLargeDiameter_def
        intro: filter_cong)
  then show ?thesis by (simp add: displayLargePlanets_A_def)
qed

lemma copy_B_excludes_unknown_and_digitless:
  assumes "population p = ''unknown'' \<or> parseInt (population p) = NaN \<or>
           diameter p = ''unknown'' \<or> parseInt (diameter p) = NaN"
  shows "\<not> selected_B p"
  using assms by (auto simp: selected_B_def)

subsection \<open>The requests for vehicles\<close>

text \<open>
  From a state whose coming vehicles are not cached, a completed invocation issues the
  request for the vehicle of the old id, and the vehicles after it stay out of the
  cache.
\<close>

lemma touches_refl: "touches s [] s"
  by (simp add: touches_def)

lemma touches_trans:
  assumes "touches s xs t" and "touches t ys u"
  shows "touches s (xs @ ys) u"
proof -
  from assms obtain as bs where
    a: "requests t = requests s @ as" "set as \<subseteq> set xs" and
    b: "requests u = requests t @ bs" "set bs \<subseteq> set ys"
    by (auto simp: touches_def)
  then have "requests u = requests s @ (as @ bs)" "set (as @ bs) \<subseteq> set (xs @ ys)"
    by auto
  then have "\<exists>zs. requests u = requests s @ zs \<and> set zs \<subseteq> set (xs @ ys)"
    by blast
  moreover from assms have
    "\<forall>key. key \<notin> set (xs @ ys) \<longrightarrow> map_of (cache u) key = map_of (cache s) key"
    by (simp add: touches_def)
  ultimately show ?thesis by (simp add: touches_def)
qed

lemma touches_mono: "touches s xs t \<Longrightarrow> set xs \<subseteq> set ys \<Longrightarrow> touches s ys t"
  unfolding touches_def by (meson subset_iff subset_trans)

lemma fetchFromApi_A_touches:
  assumes "fetchFromApi_A e endpoint s = (r, t)"
  shows "touches s [endpoint] t \<and> (map_of (cache s) endpoint = None \<longrightarrow> requests t = requests s @ [endpoint])"
  using assms
  by (auto simp: fetchFromApi_A_def Let_def touches_def cached_def update_conv'
      split: option.splits reply.splits body.splits if_splits)

lemma fetchFromApi_B_touches:
  assumes "fetchFromApi_B e endpoint s = (r, t)"
  shows "touches s [endpoint] t \<and> (map_of (cache s) endpoint = None \<longrightarrow> requests t = requests s @ [endpoint])"
  using assms
  by (auto simp: fetchFromApi_B_def Let_def touches_def cached_def update_conv'
      split: option.splits reply.splits body.splits if_splits)

lemma fetch_and_display_A_touches:
  assumes "fetch_and_display_A e endpoint h s = (c, t)"
  shows "touches s [endpoint] t \<and> (map_of (cache s) endpoint = None \<longrightarrow> requests t = requests s @ [endpoint])"
proof -
  obtain r s1 where f: "fetchFromApi_A e endpoint s = (r, s1)"
    by (cases "fetchFromApi_A e endpoint s")
  from fetchFromApi_A_touches[OF f] assms show ?thesis
    by (cases r) (auto simp: fetch_and_display_A_def f Let_def touches_def split: option.splits)
qed

lemma fetch_and_display_B_touches:
  assumes "fetch_and_display_B e endpoint h s = (c, t)"
  shows "touches s [endpoint] t \<and> (map_of (cache s) endpoint = None \<longrightarrow> requests t = requests s @ [endpoint])"
proof -
  obtain r s1 where f: "fetchFromApi_B e endpoint s = (r, s1)"
    by (cases "fetchFromApi_B e endpoint s")
  from fetchFromApi_B_touches[OF f] assms show ?thesis
    by (cases r) (auto simp: fetch_and_display_B_def f Let_def touches_def split: option.splits)
qed

lemma steps_touches:
  assumes frame: "\<And>endpoint h s c t. fd endpoint h s = (c, t) \<Longrightarrow> touches s [endpoint] t"
    and "steps fd ts s = (c, t)"
  shows "touches s (map fst ts) t"
  using assms(2)
proof (induction ts arbitrary: s)
  case Nil
  then show ?case by (simp add: touches_refl)
next
  case (Cons a ts)
  obtain endpoint h where a: "a = (endpoint, h)" by (cases a)
  from Cons.prems have q: "seq (fd endpoint h s) (steps fd ts) = (c, t)"
    by (simp add: a)
  from q show ?case
  proof (cases rule: seq_cases)
    case stopped
    from frame[OF stopped(1)] show ?thesis
      by (rule touches_mono) (simp add: a)
  next
    case (continued s1)
    from touches_trans[OF frame[OF continued(1)] Cons.IH[OF continued(2)]] show ?thesis
      by (simp add: a)
  qed
qed

lemma show_nat_digit_inj:
  assumes "a < 10" and "b < 10" and "show_nat a = show_nat b"
  shows "a = b"
proof -
  from assms have "''0123456789'' ! a = ''0123456789'' ! b"
    by (simp add: show_nat.simps digit_char_def)
  moreover have "distinct ''0123456789''" by simp
  moreover from assms have "a < length ''0123456789''" "b < length ''0123456789''" by simp_all
  ultimately show ?thesis by (simp only: nth_eq_iff_index_eq)
qed

lemma vehicle_endpoint_inj:
  "a < 10 \<Longrightarrow> b < 10 \<Longrightarrow> vehicle_endpoint a = vehicle_endpoint b \<Longrightarrow> a = b"
  by (simp add: vehicle_endpoint_def show_nat_digit_inj)

lemma vehicle_not_fixed: "vehicle_endpoint k \<notin> set (fixed_endpoints j)"
proof
  assume "vehicle_endpoint k \<in> set (fixed_endpoints j)"
  moreover have "filter is_vehicle_endpoint (fixed_endpoints j) = []"
    using no_vehicle_fixed[of "length (fixed_endpoints j)" j] by simp
  ultimately have "\<not> is_vehicle_endpoint (vehicle_endpoint k)"
    by (simp add: filter_empty_conv)
  then show False by (simp add: is_vehicle_vehicle_endpoint)
qed

lemma vehicle_step_A_touch:
  assumes "vehicle_step_A e s = (c, t)"
  shows "vehicle_touch s c t"
proof (cases "lastCharacterId s \<le> 4")
  case True
  with assms have q: "seq (fetch_and_display_A e (vehicle_endpoint (lastCharacterId s)) DisplayVehicle s)
      (\<lambda>s1. (Normal, s1\<lparr>lastCharacterId := lastCharacterId s1 + 1\<rparr>)) = (c, t)"
    by (simp add: vehicle_step_A_def maxlastCharacterId_def vehicle_endpoint_def)
  from q show ?thesis
  proof (cases rule: seq_cases)
    case stopped
    from fetch_and_display_A_touches[OF stopped(1)] True show ?thesis
      by (simp add: vehicle_touch_def)
  next
    case (continued s1)
    from fetch_and_display_A_touches[OF continued(1)] continued(2) True show ?thesis
      by (auto simp: vehicle_touch_def touches_def)
  qed
next
  case False
  with assms show ?thesis by (simp add: vehicle_step_A_def maxlastCharacterId_def vehicle_touch_def)
qed

lemma vehicle_step_B_touch:
  assumes "vehicle_step_B e s = (c, t)"
  shows "vehicle_touch s c t"
proof (cases "lastCharacterId s \<le> 4")
  case True
  with assms have q: "seq (fetch_and_display_B e (vehicle_endpoint (lastCharacterId s)) DisplayVehicle s)
      (\<lambda>s1. (Normal, s1\<lparr>lastCharacterId := lastCharacterId s1 + 1\<rparr>)) = (c, t)"
    by (simp add: vehicle_step_B_def vehicle_endpoint_def)
  from q show ?thesis
  proof (cases rule: seq_cases)
    case stopped
    from fetch_and_display_B_touches[OF stopped(1)] True show ?thesis
      by (simp add: vehicle_touch_def)
  next
    case (continued s1)
    from fetch_and_display_B_touches[OF continued(1)] continued(2) True show ?thesis
      by (auto simp: vehicle_touch_def touches_def)
  qed
next
  case False
  with assms show ?thesis by (simp add: vehicle_step_B_def vehicle_touch_def)
qed

lemma body_issues_vehicle:
  assumes fresh: "fresh_vehicles s"
    and fixed: "touches (s\<lparr>fetchCount := fetchCount s + 1\<rparr>) (fixed_endpoints j) s1"
    and same: "lastCharacterId s1 = lastCharacterId s"
    and veh: "vehicle_touch s1 Normal t"
    and rot: "lastCharacterId t = (if lastCharacterId s \<le> 4 then lastCharacterId s + 1 else lastCharacterId s)"
  shows "issues_vehicle s t"
proof -
  from fixed obtain xs where
    keep1: "\<And>key. key \<notin> set (fixed_endpoints j) \<Longrightarrow> map_of (cache s1) key = map_of (cache s) key"
    and xs: "requests s1 = requests s @ xs" "set xs \<subseteq> set (fixed_endpoints j)"
    by (auto simp: touches_def)
  have "filter is_vehicle_endpoint (fixed_endpoints j) = []"
    using no_vehicle_fixed[of "length (fixed_endpoints j)" j] by simp
  with xs(2) have nv: "filter is_vehicle_endpoint xs = []"
    by (auto simp: filter_empty_conv)
  have cache1: "map_of (cache s1) (vehicle_endpoint k) = map_of (cache s) (vehicle_endpoint k)" for k
    by (rule keep1) (rule vehicle_not_fixed)
  show ?thesis
  proof (cases "lastCharacterId s \<le> 4")
    case True
    let ?v = "vehicle_endpoint (lastCharacterId s)"
    from fresh True have "map_of (cache s) ?v = None"
      by (simp add: fresh_vehicles_def)
    with cache1 have none: "map_of (cache s1) ?v = None" by simp
    from veh True same none have
      t: "touches s1 [?v] t" "requests t = requests s1 @ [?v]"
      by (simp_all add: vehicle_touch_def)
    have "fresh_vehicles t"
      unfolding fresh_vehicles_def
    proof (intro allI impI)
      fix k assume k: "lastCharacterId t \<le> k \<and> k \<le> 4"
      with rot True have lt: "lastCharacterId s < k" by simp
      with k True have "vehicle_endpoint k \<noteq> ?v"
        using vehicle_endpoint_inj[of k "lastCharacterId s"] by auto
      with t(1) have "map_of (cache t) (vehicle_endpoint k) = map_of (cache s1) (vehicle_endpoint k)"
        by (simp add: touches_def)
      also have "\<dots> = map_of (cache s) (vehicle_endpoint k)" by (rule cache1)
      also from fresh lt k have "\<dots> = None" by (simp add: fresh_vehicles_def)
      finally show "map_of (cache t) (vehicle_endpoint k) = None" .
    qed
    moreover from t(2) xs(1) nv True have
      "vehicle_requests t = vehicle_requests s @ [?v]"
      by (simp add: vehicle_requests_def is_vehicle_vehicle_endpoint)
    ultimately show ?thesis using True by (simp add: issues_vehicle_def)
  next
    case False
    with veh same have ts: "t = s1" by (simp add: vehicle_touch_def)
    from False fresh have "fresh_vehicles t"
      unfolding ts fresh_vehicles_def same by (simp add: cache1)
    moreover from xs(1) nv have "vehicle_requests t = vehicle_requests s"
      unfolding ts by (simp add: vehicle_requests_def)
    ultimately show ?thesis using False by (simp add: issues_vehicle_def)
  qed
qed

lemma try_body_A_issues:
  assumes "try_body_A e s = (Normal, t)" and "fresh_vehicles s"
  shows "issues_vehicle s t"
proof -
  let ?s0 = "s\<lparr>fetchCount := fetchCount s + 1\<rparr>"
  obtain c1 s1 where f: "steps (fetch_and_display_A e) tasks ?s0 = (c1, s1)"
    by (cases "steps (fetch_and_display_A e) tasks ?s0")
  from assms(1) f have b: "seq (c1, s1) (vehicle_step_A e) = (Normal, t)"
    by (simp add: try_body_A_def Let_def for_tasks_A_steps)
  then have c1: "c1 = Normal" and v: "vehicle_step_A e s1 = (Normal, t)"
    by (cases c1; simp)+
  have "touches ?s0 (map fst tasks) s1"
    by (rule steps_touches[OF _ f]) (simp add: fetch_and_display_A_touches)
  then have fixed: "touches ?s0 (fixed_endpoints 1) s1" by (simp add: tasks_endpoints)
  have "\<exists>k. k \<le> length tasks \<and> (c1 = Normal \<longrightarrow> k = length tasks) \<and>
      adds_calls ?s0 (take k (map fst tasks)) s1"
    by (rule steps_calls[OF _ f]) (rule fetch_and_display_A_adds)
  then have same: "lastCharacterId s1 = lastCharacterId s" by (auto simp: adds_calls_def)
  from try_body_A_effect[OF assms(1)] have
    rot: "lastCharacterId t = (if lastCharacterId s \<le> 4 then lastCharacterId s + 1 else lastCharacterId s)"
    by (simp add: body_effect_def)
  show ?thesis
    by (rule body_issues_vehicle[OF assms(2) fixed same vehicle_step_A_touch[OF v] rot])
qed

lemma try_body_B_issues:
  assumes "try_body_B e s = (Normal, t)" and "fresh_vehicles s"
  shows "issues_vehicle s t"
proof -
  let ?s0 = "s\<lparr>fetchCount := fetchCount s + 1\<rparr>"
  let ?ts = "[(''people/'' @ show_nat (lastCharacterId s), DisplayCharacterDetails),
             (''starships/?page=1'', DisplayStarships),
             (''planets/?page=1'', DisplayLargePlanets),
             (''films/'', DisplayFilmsChronologically)]"
  obtain c1 s1 where f: "steps (fetch_and_display_B e) ?ts ?s0 = (c1, s1)"
    by (cases "steps (fetch_and_display_B e) ?ts ?s0")
  from assms(1) have b: "seq (c1, s1) (vehicle_step_B e) = (Normal, t)"
    unfolding try_body_B_steps f .
  then have c1: "c1 = Normal" and v: "vehicle_step_B e s1 = (Normal, t)"
    by (cases c1; simp)+
  have ts: "map fst ?ts = fixed_endpoints (lastCharacterId s)"
    by (simp add: fixed_endpoints_def)
  have "touches ?s0 (map fst ?ts) s1"
    by (rule steps_touches[OF _ f]) (simp add: fetch_and_display_B_touches)
  then have fixed: "touches ?s0 (fixed_endpoints (lastCharacterId s)) s1" by (simp only: ts)
  have "\<exists>k. k \<le> length ?ts \<and> (c1 = Normal \<longrightarrow> k = length ?ts) \<and>
      adds_calls ?s0 (take k (map fst ?ts)) s1"
    by (rule steps_calls[OF _ f]) (rule fetch_and_display_B_adds)
  then have same: "lastCharacterId s1 = lastCharacterId s" by (auto simp: adds_calls_def)
  from try_body_B_effect[OF assms(1)] have
    rot: "lastCharacterId t = (if lastCharacterId s \<le> 4 then lastCharacterId s + 1 else lastCharacterId s)"
    by (simp add: body_effect_def)
  show ?thesis
    by (rule body_issues_vehicle[OF assms(2) fixed same vehicle_step_B_touch[OF v] rot])
qed

lemma requests_rotate_A: "requests_rotate (fetchStarWarsData_A e)"
  unfolding requests_rotate_def fetchStarWarsData_A_def catch_block_Completed
  using try_body_A_issues by blast

lemma requests_rotate_B: "requests_rotate (fetchStarWarsData_B e)"
  unfolding requests_rotate_def fetchStarWarsData_B_def catch_block_Completed
  using try_body_B_issues by blast

lemma invocations_request_vehicles:
  assumes "rotates run" and "requests_rotate run"
    and "invocations run n s = Some t" and "fresh_vehicles s"
  shows "vehicle_requests t =
           vehicle_requests s @ map vehicle_endpoint [lastCharacterId s ..< min (lastCharacterId s + n) 5]"
  using assms(3,4)
proof (induction n arbitrary: s)
  case 0
  then show ?case by simp
next
  case (Suc n)
  from Suc.prems obtain s1 where r: "run s = Completed s1" and i: "invocations run n s1 = Some t"
    by (auto split: outcome.splits)
  from assms(1) r have
    s1: "lastCharacterId s1 = (if lastCharacterId s \<le> 4 then lastCharacterId s + 1 else lastCharacterId s)"
    by (auto simp: rotates_def)
  from assms(2) r Suc.prems(2) have iv: "issues_vehicle s s1"
    by (auto simp: requests_rotate_def)
  then have fresh1: "fresh_vehicles s1" by (simp add: issues_vehicle_def)
  show ?case
  proof (cases "lastCharacterId s \<le> 4")
    case True
    then have lt: "lastCharacterId s < min (lastCharacterId s + Suc n) 5"
      by simp
    have m: "min (lastCharacterId s + Suc n) 5 = min (lastCharacterId s + 1 + n) 5"
      by simp
    have "[lastCharacterId s ..< min (lastCharacterId s + Suc n) 5] =
        lastCharacterId s # [lastCharacterId s + 1 ..< min (lastCharacterId s + 1 + n) 5]"
      using upt_conv_Cons[OF lt] unfolding m by simp
    then show ?thesis
      using Suc.IH[OF i fresh1] s1 iv True by (simp add: issues_vehicle_def)
  next
    case False
    with Suc.IH[OF i fresh1] s1 iv show ?thesis by (simp add: issues_vehicle_def)
  qed
qed

lemma fresh_initial: "fresh_vehicles initial_state"
  by (simp add: fresh_vehicles_def initial_state_def)

subsection \<open>A truthy entry stays\<close>






























subsection \<open>Evaluating the examples\<close>

text \<open>
  The definitions the simplifier unfolds to run the program on a concrete input.
\<close>

lemmas example_simps =
  fetchStarWarsData_A_def fetchStarWarsData_B_def try_body_A_def try_body_B_def
  vehicle_step_A_def vehicle_step_B_def fetch_and_display_A_def fetch_and_display_B_def
  fetchFromApi_A_def fetchFromApi_B_def cached_def tasks_def initial_state_def
  maxlastCharacterId_def BAD_REQUEST_def handleError_def Let_def
  show_nat.simps digit_char_def

lemmas number_simps =
  StringToNumber_def trim_def decimal_literal_def exponent_part_def split_sign_def radix_literal_def
  is_space_def is_digit_in_def digit_val_def digits_value_def parseInt_def to_double_def
  binary_exponent_def round_half_even_def bit_length.simps Number_isNaN_def Let_def

text \<open>
  Rounding and white space at work: \<^verbatim>\<open>Number('1000000000.00000000001')\<close> is the double
  \<^verbatim>\<open>1000000000\<close>, which is not above the population threshold; a no-break space before
  the digits is dropped by \<^verbatim>\<open>Number\<close> and by \<^verbatim>\<open>parseInt\<close>; \<^verbatim>\<open>2^53 + 1\<close> rounds to
  \<^verbatim>\<open>2^53\<close>; and \<^verbatim>\<open>0.1\<close> is the double nearest to one tenth.
\<close>

lemma StringToNumber_rounds:
  "StringToNumber ''1000000000.00000000001'' = Num 1000000000"
  "\<not> hasLargePopulation \<lparr>name = ''X'', population = ''1000000000.00000000001'', diameter = ''1'',
      climate = ''arid'', films = None\<rparr>"
  "StringToNumber (CHR 0xA0 # ''20000'') = Num 20000"
  "parseInt (CHR 0xA0 # ''20000'') = Num 20000"
  "StringToNumber ''9007199254740993'' = Num 9007199254740992"
  "StringToNumber ''0.1'' = Num (3602879701896397 / 36028797018963968)"
  by (simp_all add: number_simps hasLargePopulation_def knownNumber_def
      PLANET_POPULATION_THRESHOLD_def)

section \<open>The claims\<close>

subsection \<open>C1: fetching an endpoint twice\<close>




subsection \<open>C2: the failures of fetchFromApi\<close>

text \<open>
  Claim C2 says that \<^verbatim>\<open>fetchFromApi\<close> fails with a ParseError when the body is not
  well-formed JSON. In the first copy it does not: the response has status 200 and an
  HTML page as its body, the \<^verbatim>\<open>SyntaxError\<close> of \<^verbatim>\<open>JSON.parse\<close> leaves the
  \<^verbatim>\<open>"end"\<close> listener uncaught and the promise is never rejected. The second copy
  rejects the promise with that error. (C2 at its failing input.)
\<close>

theorem malformed_body_escapes_fetchFromApi_A:
  "fetchFromApi_A html_body ''people/1'' initial_state =
     (Uncaught (SyntaxError ''Unexpected token < in JSON at position 0''),
      initial_state\<lparr>calls := [''people/1''], requests := [''people/1'']\<rparr>) \<and>
   fetchFromApi_B html_body ''people/1'' initial_state =
     (Rejected (SyntaxError ''Unexpected token < in JSON at position 0''),
      initial_state\<lparr>calls := [''people/1''], requests := [''people/1'']\<rparr>)"
  by (simp add: example_simps example_env_def example_reply_def html_body_def)

subsection \<open>C3: no fetch failure crashes the process\<close>

text \<open>
  Claim C3 says that every failure of a single fetch is handled by the error path of
  \<^verbatim>\<open>fetchStarWarsData\<close> and never terminates the process. With the remote side that
  answers with an HTML page, the first invocation of the first copy ends the process
  with \<^verbatim>\<open>errorCount\<close> still 0; the second copy handles the same failure. (C3 at its
  failing input.)
\<close>

theorem malformed_body_crashes_copy_A:
  "fetchStarWarsData_A html_body initial_state =
     Crashed (initial_state\<lparr>fetchCount := 1, calls := [''people/1''], requests := [''people/1'']\<rparr>) \<and>
   fetchStarWarsData_B html_body initial_state =
     Handled (initial_state\<lparr>errorCount := 1, fetchCount := 1, calls := [''people/1''],
       requests := [''people/1''],
       errorLog := [''Error: Unexpected token < in JSON at position 0'']\<rparr>)"
  by (simp add: example_simps example_env_def example_reply_def html_body_def)

subsection \<open>C4: the statistics never decrease\<close>

text \<open>
  Claim C4: none of \<^verbatim>\<open>api_calls\<close>, \<^verbatim>\<open>data_size\<close>, \<^verbatim>\<open>errors\<close> and \<^verbatim>\<open>cache_size\<close> is
  smaller after an operation than before it, from whatever state and against whatever
  remote side. The operations are \<^verbatim>\<open>handleError\<close>, a call of \<^verbatim>\<open>fetchFromApi\<close>, an
  invocation of \<^verbatim>\<open>fetchStarWarsData\<close>, and the server handling any sequence of requests,
  in both copies; when the process terminates on the way, this holds up to the state it
  terminates in.
\<close>

theorem stats_never_decrease:
  "stats_le (statsStringfied s) (statsStringfied (handleError msg s)) \<and>
   stats_le (statsStringfied s) (statsStringfied (snd (fetchFromApi_A e endpoint s))) \<and>
   stats_le (statsStringfied s) (statsStringfied (snd (fetchFromApi_B e endpoint s))) \<and>
   stats_le (statsStringfied s) (statsStringfied (state_of (fetchStarWarsData_A e s))) \<and>
   stats_le (statsStringfied s) (statsStringfied (state_of (fetchStarWarsData_B e s))) \<and>
   stats_le (statsStringfied s) (statsStringfied (last_state (startServer_A e urls s))) \<and>
   stats_le (statsStringfied s) (statsStringfied (last_state (startServer_B e urls s)))"
proof -
  have le: "stats_le (statsStringfied a) (statsStringfied b)" if "no_decrease a b" for a b
    using that by (simp add: stats_le_def statsStringfied_def no_decrease_def)
  have "no_decrease s (handleError msg s)"
    by (simp add: no_decrease_def handleError_def)
  then show ?thesis
    by (intro conjI le fetchFromApi_A_no_decrease fetchFromApi_B_no_decrease
        fetchStarWarsData_A_no_decrease fetchStarWarsData_B_no_decrease
        startServer_A_no_decrease startServer_B_no_decrease)
qed

text \<open>
  Witness for C4: the first copy serving \<^verbatim>\<open>/api\<close> and then \<^verbatim>\<open>/stats\<close> from the
  initial state.
\<close>

theorem stats_never_decrease_witness:
  "stats_le (statsStringfied initial_state)
     (statsStringfied (last_state (startServer_A all_good [''/api'', ''/stats''] initial_state))) \<and>
   statsStringfied initial_state = \<lparr>api_calls = 0, cache_size = 0, data_size = 0, errors = 0\<rparr> \<and>
   statsStringfied (last_state (startServer_A all_good [''/api'', ''/stats''] initial_state)) =
     \<lparr>api_calls = 1, cache_size = 5, data_size = 46, errors = 0\<rparr>"
  using stats_never_decrease [of initial_state "[]" all_good "[]" "[''/api'', ''/stats'']"]
  by (simp add: example_simps example_env_def example_reply_def all_good_def listener_A_def
      statsStringfied_def Object_keys_def)

subsection \<open>C5: what fetchCount counts\<close>

text \<open>
  Claim C5 says that an invocation in which a fetch step fails does not increment
  \<^verbatim>\<open>api_calls\<close>. Counterexample to C5: no request is answered, so the first fetch of
  the first invocation fails with a timeout; the invocation ends in the catch block,
  and \<^verbatim>\<open>fetchCount\<close> is 1, in both copies.
\<close>

theorem fetchCount_after_failed_fetch:
  "fetchStarWarsData_A no_response initial_state =
     Handled (initial_state\<lparr>errorCount := 1, fetchCount := 1, calls := [''people/1''],
       requests := [''people/1''], errorLog := [''Error: Request timeout for people/1'']\<rparr>) \<and>
   fetchStarWarsData_B no_response initial_state =
     Handled (initial_state\<lparr>errorCount := 1, fetchCount := 1, calls := [''people/1''],
       requests := [''people/1''], errorLog := [''Error: Request timeout for people/1'']\<rparr>)"
  by (simp add: example_simps example_env_def example_reply_def no_response_def)

text \<open>
  C5 as amended: \<^verbatim>\<open>fetchCount\<close> counts the invocations of \<^verbatim>\<open>fetchStarWarsData\<close>.
  Every invocation increments it by exactly one, whether its fetch steps succeed or
  fail, in both copies.
\<close>

theorem fetchCount_counts_invocations:
  "fetchCount (state_of (fetchStarWarsData_A e s)) = fetchCount s + 1 \<and>
   fetchCount (state_of (fetchStarWarsData_B e s)) = fetchCount s + 1"
proof
  obtain c t where a: "try_body_A e s = (c, t)" by (cases "try_body_A e s")
  from try_body_A_effect[OF a] catch_block_frame[of "(c, t)"]
  show "fetchCount (state_of (fetchStarWarsData_A e s)) = fetchCount s + 1"
    by (simp add: fetchStarWarsData_A_def a body_effect_def)
  obtain c' t' where b: "try_body_B e s = (c', t')" by (cases "try_body_B e s")
  from try_body_B_effect[OF b] catch_block_frame[of "(c', t')"]
  show "fetchCount (state_of (fetchStarWarsData_B e s)) = fetchCount s + 1"
    by (simp add: fetchStarWarsData_B_def b body_effect_def)
qed

subsection \<open>C6: the rotating id\<close>

text \<open>
  Claim C6: after \<open>n\<close> invocations in sequence from the initial state, each of which
  completes, the vehicle fetches made so far are those for \<^verbatim>\<open>vehicles/1\<close> up to
  \<^verbatim>\<open>vehicles/4\<close> or \<^verbatim>\<open>vehicles/n\<close>, whichever comes first, each of them both a call
  of \<^verbatim>\<open>fetchFromApi\<close> and an outbound request, and the rotating id is \<open>n + 1\<close> or 5,
  whichever is smaller. So invocation \<open>k\<close> fetches \<^verbatim>\<open>vehicles/k\<close> for \<open>k\<close> from 1 to
  4, and the fifth and every later invocation fetches no vehicle. And once the rotating
  id is above 4, no sequence of requests to the server, whether its runs succeed or
  fail, changes the id or adds a vehicle call. In both copies.
\<close>

theorem vehicle_rotation:
  "(invocations (fetchStarWarsData_A e) n initial_state = Some t \<longrightarrow>
      vehicle_calls t = map vehicle_endpoint [1 ..< min (n + 1) 5] \<and>
      vehicle_requests t = map vehicle_endpoint [1 ..< min (n + 1) 5] \<and>
      lastCharacterId t = min (n + 1) 5) \<and>
   (invocations (fetchStarWarsData_B e) n initial_state = Some t \<longrightarrow>
      vehicle_calls t = map vehicle_endpoint [1 ..< min (n + 1) 5] \<and>
      vehicle_requests t = map vehicle_endpoint [1 ..< min (n + 1) 5] \<and>
      lastCharacterId t = min (n + 1) 5) \<and>
   (4 < lastCharacterId s \<longrightarrow>
      lastCharacterId (last_state (startServer_A e urls s)) = lastCharacterId s \<and>
      vehicle_calls (last_state (startServer_A e urls s)) = vehicle_calls s \<and>
      lastCharacterId (last_state (startServer_B e urls s)) = lastCharacterId s \<and>
      vehicle_calls (last_state (startServer_B e urls s)) = vehicle_calls s)"
proof (intro conjI impI)
  have init: "lastCharacterId initial_state = 1" "vehicle_calls initial_state = []"
    "vehicle_requests initial_state = []"
    by (simp_all add: initial_state_def vehicle_calls_def vehicle_requests_def)
  {
    assume a: "invocations (fetchStarWarsData_A e) n initial_state = Some t"
    from invocations_rotate[OF rotates_A a] init
    show "vehicle_calls t = map vehicle_endpoint [1 ..< min (n + 1) 5]"
      and "lastCharacterId t = min (n + 1) 5"
      by (simp_all add: add.commute)
    from invocations_request_vehicles[OF rotates_A requests_rotate_A a fresh_initial] init
    show "vehicle_requests t = map vehicle_endpoint [1 ..< min (n + 1) 5]"
      by (simp add: add.commute)
  }
  {
    assume b: "invocations (fetchStarWarsData_B e) n initial_state = Some t"
    from invocations_rotate[OF rotates_B b] init
    show "vehicle_calls t = map vehicle_endpoint [1 ..< min (n + 1) 5]"
      and "lastCharacterId t = min (n + 1) 5"
      by (simp_all add: add.commute)
    from invocations_request_vehicles[OF rotates_B requests_rotate_B b fresh_initial] init
    show "vehicle_requests t = map vehicle_endpoint [1 ..< min (n + 1) 5]"
      by (simp add: add.commute)
  }
  assume "4 < lastCharacterId s"
  from startServer_A_past_ceiling[OF this] startServer_B_past_ceiling[OF this]
  show "lastCharacterId (last_state (startServer_A e urls s)) = lastCharacterId s"
    and "vehicle_calls (last_state (startServer_A e urls s)) = vehicle_calls s"
    and "lastCharacterId (last_state (startServer_B e urls s)) = lastCharacterId s"
    and "vehicle_calls (last_state (startServer_B e urls s)) = vehicle_calls s"
    by simp_all
qed

text \<open>
  Witness for C6: five invocations against the remote side that answers everything; the
  vehicle fetches after three, four and five of them; and two runs from a state whose
  rotating id is 5.
\<close>

theorem vehicle_rotation_witness:
  "map_option vehicle_calls (invocations (fetchStarWarsData_A all_good) 5 initial_state) =
     Some [''vehicles/1'', ''vehicles/2'', ''vehicles/3'', ''vehicles/4''] \<and>
   map_option vehicle_requests (invocations (fetchStarWarsData_A all_good) 5 initial_state) =
     Some [''vehicles/1'', ''vehicles/2'', ''vehicles/3'', ''vehicles/4''] \<and>
   map_option vehicle_calls (invocations (fetchStarWarsData_B all_good) 5 initial_state) =
     Some [''vehicles/1'', ''vehicles/2'', ''vehicles/3'', ''vehicles/4''] \<and>
   map_option vehicle_requests (invocations (fetchStarWarsData_B all_good) 5 initial_state) =
     Some [''vehicles/1'', ''vehicles/2'', ''vehicles/3'', ''vehicles/4''] \<and>
   map_option vehicle_calls (invocations (fetchStarWarsData_A all_good) 4 initial_state) =
     Some [''vehicles/1'', ''vehicles/2'', ''vehicles/3'', ''vehicles/4''] \<and>
   map_option vehicle_calls (invocations (fetchStarWarsData_B all_good) 3 initial_state) =
     Some [''vehicles/1'', ''vehicles/2'', ''vehicles/3''] \<and>
   map_option lastCharacterId (invocations (fetchStarWarsData_B all_good) 5 initial_state) = Some 5 \<and>
   (4::nat) < lastCharacterId (initial_state\<lparr>lastCharacterId := 5\<rparr>) \<and>
   vehicle_calls (last_state (startServer_A all_good [''/api'', ''/api'']
     (initial_state\<lparr>lastCharacterId := 5\<rparr>))) = [] \<and>
   vehicle_calls (last_state (startServer_B all_good [''/api'', ''/api'']
     (initial_state\<lparr>lastCharacterId := 5\<rparr>))) = []"
proof -
  obtain a5 where a5: "invocations (fetchStarWarsData_A all_good) 5 initial_state = Some a5"
    by (simp add: example_simps example_env_def example_reply_def all_good_def eval_nat_numeral)
  obtain b5 where b5: "invocations (fetchStarWarsData_B all_good) 5 initial_state = Some b5"
    by (simp add: example_simps example_env_def example_reply_def all_good_def eval_nat_numeral)
  obtain a4 where a4: "invocations (fetchStarWarsData_A all_good) 4 initial_state = Some a4"
    by (simp add: example_simps example_env_def example_reply_def all_good_def eval_nat_numeral)
  obtain b3 where b3: "invocations (fetchStarWarsData_B all_good) 3 initial_state = Some b3"
    by (simp add: example_simps example_env_def example_reply_def all_good_def eval_nat_numeral)
  have v: "map vehicle_endpoint [1 ..< 5] = [''vehicles/1'', ''vehicles/2'', ''vehicles/3'', ''vehicles/4'']"
    "map vehicle_endpoint [1 ..< 4] = [''vehicles/1'', ''vehicles/2'', ''vehicles/3'']"
    by (simp_all add: vehicle_endpoint_def upt_rec show_nat.simps digit_char_def)
  have c: "(4::nat) < lastCharacterId (initial_state\<lparr>lastCharacterId := 5\<rparr>)"
    "vehicle_calls (initial_state\<lparr>lastCharacterId := 5\<rparr>) = []"
    by (simp_all add: vehicle_calls_def initial_state_def)
  show ?thesis
    using vehicle_rotation [of all_good 5 a5 "initial_state\<lparr>lastCharacterId := 5\<rparr>" "[''/api'', ''/api'']"]
      vehicle_rotation [of all_good 5 b5 "initial_state\<lparr>lastCharacterId := 5\<rparr>" "[''/api'', ''/api'']"]
      vehicle_rotation [of all_good 4 a4 "initial_state\<lparr>lastCharacterId := 5\<rparr>" "[''/api'', ''/api'']"]
      vehicle_rotation [of all_good 3 b3 "initial_state\<lparr>lastCharacterId := 5\<rparr>" "[''/api'', ''/api'']"]
      a5 b5 a4 b3 v c
    by simp
qed

subsection \<open>C7: a failing step\<close>

text \<open>
  Claim C7 says that when any step of an invocation fails, \<^verbatim>\<open>errorCount\<close> is
  incremented exactly once through \<^verbatim>\<open>handleError\<close>. With the remote side whose second
  answer is an HTML page, the first copy fetches \<^verbatim>\<open>people/1\<close>, adds its length 2 to
  \<^verbatim>\<open>totalDataSize\<close>, and then dies in the fetch of \<^verbatim>\<open>starships/?page=1\<close>: \<^verbatim>\<open>errorCount\<close>
  stays 0 and nothing is logged. The second copy counts and logs the error. (C7 at its
  failing input.)
\<close>

theorem crash_skips_handleError:
  "fetchStarWarsData_A html_second initial_state =
     Crashed \<lparr>cache = [(''people/1'', JObj [])], errorCount = 0, fetchCount = 1,
       totalDataSize = 2, lastCharacterId = 1,
       calls = [''people/1'', ''starships/?page=1''],
       requests = [''people/1'', ''starships/?page=1''], errorLog = []\<rparr> \<and>
   fetchStarWarsData_B html_second initial_state =
     Handled \<lparr>cache = [(''people/1'', JObj [])], errorCount = 1, fetchCount = 1,
       totalDataSize = 2, lastCharacterId = 1,
       calls = [''people/1'', ''starships/?page=1''],
       requests = [''people/1'', ''starships/?page=1''],
       errorLog = [''Error: Unexpected token < in JSON at position 0'']\<rparr>"
  by (simp add: example_simps example_env_def example_reply_def html_second_def)

subsection \<open>C8: planets with unknown or non-numeric fields\<close>

text \<open>
  Claim C8 says that a planet whose population or diameter is not a numeric string
  never appears among the large populated planets, in both copies. For the planet
  below \<^verbatim>\<open>Number\<close> gives \<^verbatim>\<open>NaN\<close> on both fields, and the first copy prints the heading
  only; the second copy reads the leading digits with \<^verbatim>\<open>parseInt\<close> and prints the
  planet. (C8 at its failing input.)
\<close>

theorem copy_B_selects_garbled_planet:
  "Number_isNaN (StringToNumber (population garbled_planet)) \<and>
   Number_isNaN (StringToNumber (diameter garbled_planet)) \<and>
   displayLargePlanets_A [garbled_planet] = [CHR 0x0A # ''Large populated planets:''] \<and>
   displayLargePlanets_B [garbled_planet] =
     [CHR 0x0A # ''Large populated planets:'',
      ''Coruscant - Pop: 1000000000000 (estimated) - Diameter: 12240km - Climate: temperate'']"
  by (simp add: garbled_planet_def displayLargePlanets_A_def displayLargePlanets_B_def
      isBigPopulatedPlanet_def hasLargePopulation_def hasLargeDiameter_def knownNumber_def
      selected_B_def print_planet_B_def planet_line_def number_simps)

subsection \<open>C9: the two copies\<close>

text \<open>
  Claim C9 says that both copies fetch the same endpoints on every invocation, the
  same \<^verbatim>\<open>people/<id>\<close> in particular, and end with the same cache. Two invocations
  against the remote side that answers everything: on the second, the first copy calls
  \<^verbatim>\<open>fetchFromApi\<close> for \<^verbatim>\<open>people/1\<close> again and the second copy for \<^verbatim>\<open>people/2\<close>; the
  second copy issues a request more and has a key more in its cache. (C9 at its
  failing input.)
\<close>

theorem copies_fetch_different_people:
  "map_option calls (invocations (fetchStarWarsData_A all_good) 2 initial_state) =
     Some [''people/1'', ''starships/?page=1'', ''planets/?page=1'', ''films/'', ''vehicles/1'',
           ''people/1'', ''starships/?page=1'', ''planets/?page=1'', ''films/'', ''vehicles/2''] \<and>
   map_option calls (invocations (fetchStarWarsData_B all_good) 2 initial_state) =
     Some [''people/1'', ''starships/?page=1'', ''planets/?page=1'', ''films/'', ''vehicles/1'',
           ''people/2'', ''starships/?page=1'', ''planets/?page=1'', ''films/'', ''vehicles/2''] \<and>
   map_option requests (invocations (fetchStarWarsData_A all_good) 2 initial_state) =
     Some [''people/1'', ''starships/?page=1'', ''planets/?page=1'', ''films/'', ''vehicles/1'',
           ''vehicles/2''] \<and>
   map_option requests (invocations (fetchStarWarsData_B all_good) 2 initial_state) =
     Some [''people/1'', ''starships/?page=1'', ''planets/?page=1'', ''films/'', ''vehicles/1'',
           ''people/2'', ''vehicles/2''] \<and>
   map_option (\<lambda>s. Object_keys (cache s)) (invocations (fetchStarWarsData_A all_good) 2 initial_state) =
     Some [''people/1'', ''starships/?page=1'', ''planets/?page=1'', ''films/'', ''vehicles/1'',
           ''vehicles/2''] \<and>
   map_option (\<lambda>s. Object_keys (cache s)) (invocations (fetchStarWarsData_B all_good) 2 initial_state) =
     Some [''people/1'', ''starships/?page=1'', ''planets/?page=1'', ''films/'', ''vehicles/1'',
           ''people/2'', ''vehicles/2'']"
  by (simp add: example_simps example_env_def example_reply_def all_good_def numeral_2_eq_2 Object_keys_def)

subsection \<open>C10: a cache hit is decided by truthiness\<close>

text \<open>
  Claim C10: when the cache has a value \<open>v\<close> stored for an endpoint, \<^verbatim>\<open>fetchFromApi\<close>
  returns it without a request if it is truthy. If it is falsy, and then it is one of
  \<^verbatim>\<open>null\<close>, \<^verbatim>\<open>false\<close>, \<^verbatim>\<open>0\<close> and the empty string, the call issues a request for
  the endpoint and the stored value plays no part in what the call returns, which is
  decided by the reply to that request:
  \<^item> a status below 400 with a well-formed body \<open>w\<close>: the call resolves with \<open>w\<close>, and
    \<open>w\<close> replaces the stored entry;
  \<^item> a status of 400 or more, no response in time, or a socket error: the call rejects,
    and the cache is as it was;
  \<^item> a status below 400 with a malformed body: the first copy throws outside the
    promise, the second rejects, and the cache is as it was.

  In both copies, from every state and against every remote side.
\<close>

theorem hit_by_truthiness:
  assumes "map_of (cache s) endpoint = Some v"
  shows "if truthy v
         then fetchFromApi_A e endpoint s = (Resolved v, s\<lparr>calls := calls s @ [endpoint]\<rparr>) \<and>
              fetchFromApi_B e endpoint s = (Resolved v, s\<lparr>calls := calls s @ [endpoint]\<rparr>)
         else v \<in> {JNull, JBool False, JNum 0, JStr []} \<and>
              requests (snd (fetchFromApi_A e endpoint s)) = requests s @ [endpoint] \<and>
              requests (snd (fetchFromApi_B e endpoint s)) = requests s @ [endpoint] \<and>
              (case remote e (length (requests s)) endpoint of
                 Response code b \<Rightarrow>
                   if 400 \<le> code
                   then fetchFromApi_A e endpoint s =
                          (Rejected (RequestFailed code),
                           s\<lparr>calls := calls s @ [endpoint], requests := requests s @ [endpoint]\<rparr>) \<and>
                        fetchFromApi_B e endpoint s =
                          (Rejected (RequestFailed code),
                           s\<lparr>calls := calls s @ [endpoint], requests := requests s @ [endpoint]\<rparr>)
                   else (case b of
                           Parsed w \<Rightarrow>
                             fetchFromApi_A e endpoint s =
                               (Resolved w,
                                s\<lparr>cache := AList.update endpoint w (cache s),
                                  calls := calls s @ [endpoint],
                                  requests := requests s @ [endpoint]\<rparr>) \<and>
                             fetchFromApi_B e endpoint s =
                               (Resolved w,
                                s\<lparr>cache := AList.update endpoint w (cache s),
                                  calls := calls s @ [endpoint],
                                  requests := requests s @ [endpoint]\<rparr>)
                         | Malformed m \<Rightarrow>
                             fetchFromApi_A e endpoint s =
                               (Uncaught (SyntaxError m),
                                s\<lparr>calls := calls s @ [endpoint], requests := requests s @ [endpoint]\<rparr>) \<and>
                             fetchFromApi_B e endpoint s =
                               (Rejected (SyntaxError m),
                                s\<lparr>calls := calls s @ [endpoint], requests := requests s @ [endpoint]\<rparr>))
               | NoResponse \<Rightarrow>
                   fetchFromApi_A e endpoint s =
                     (Rejected (RequestTimeout endpoint),
                      s\<lparr>calls := calls s @ [endpoint], requests := requests s @ [endpoint]\<rparr>) \<and>
                   fetchFromApi_B e endpoint s =
                     (Rejected (RequestTimeout endpoint),
                      s\<lparr>calls := calls s @ [endpoint], requests := requests s @ [endpoint]\<rparr>)
               | SocketError m \<Rightarrow>
                   fetchFromApi_A e endpoint s =
                     (Rejected (RequestError m),
                      s\<lparr>calls := calls s @ [endpoint], requests := requests s @ [endpoint]\<rparr>) \<and>
                   fetchFromApi_B e endpoint s =
                     (Rejected (RequestError m),
                      s\<lparr>calls := calls s @ [endpoint], requests := requests s @ [endpoint]\<rparr>))"
proof (cases "truthy v")
  case True
  with assms have "cached (cache s) endpoint = Some v" by (simp add: cached_Some)
  with True show ?thesis by (simp add: fetchFromApi_A_hit fetchFromApi_B_hit)
next
  case False
  with assms have none: "cached (cache s) endpoint = None" by (simp add: cached_def)
  from False have "v \<in> {JNull, JBool False, JNum 0, JStr []}"
    using falsy_values[of v] by simp
  moreover note fetchFromApi_A_miss_requests[OF none, of e] fetchFromApi_B_miss_requests[OF none, of e]
  moreover have "case remote e (length (requests s)) endpoint of
                 Response code b \<Rightarrow>
                   if 400 \<le> code
                   then fetchFromApi_A e endpoint s =
                          (Rejected (RequestFailed code),
                           s\<lparr>calls := calls s @ [endpoint], requests := requests s @ [endpoint]\<rparr>) \<and>
                        fetchFromApi_B e endpoint s =
                          (Rejected (RequestFailed code),
                           s\<lparr>calls := calls s @ [endpoint], requests := requests s @ [endpoint]\<rparr>)
                   else (case b of
                           Parsed w \<Rightarrow>
                             fetchFromApi_A e endpoint s =
                               (Resolved w,
                                s\<lparr>cache := AList.update endpoint w (cache s),
                                  calls := calls s @ [endpoint],
                                  requests := requests s @ [endpoint]\<rparr>) \<and>
                             fetchFromApi_B e endpoint s =
                               (Resolved w,
                                s\<lparr>cache := AList.update endpoint w (cache s),
                                  calls := calls s @ [endpoint],
                                  requests := requests s @ [endpoint]\<rparr>)
                         | Malformed m \<Rightarrow>
                             fetchFromApi_A e endpoint s =
                               (Uncaught (SyntaxError m),
                                s\<lparr>calls := calls s @ [endpoint], requests := requests s @ [endpoint]\<rparr>) \<and>
                             fetchFromApi_B e endpoint s =
                               (Rejected (SyntaxError m),
                                s\<lparr>calls := calls s @ [endpoint], requests := requests s @ [endpoint]\<rparr>))
               | NoResponse \<Rightarrow>
                   fetchFromApi_A e endpoint s =
                     (Rejected (RequestTimeout endpoint),
                      s\<lparr>calls := calls s @ [endpoint], requests := requests s @ [endpoint]\<rparr>) \<and>
                   fetchFromApi_B e endpoint s =
                     (Rejected (RequestTimeout endpoint),
                      s\<lparr>calls := calls s @ [endpoint], requests := requests s @ [endpoint]\<rparr>)
               | SocketError m \<Rightarrow>
                   fetchFromApi_A e endpoint s =
                     (Rejected (RequestError m),
                      s\<lparr>calls := calls s @ [endpoint], requests := requests s @ [endpoint]\<rparr>) \<and>
                   fetchFromApi_B e endpoint s =
                     (Rejected (RequestError m),
                      s\<lparr>calls := calls s @ [endpoint], requests := requests s @ [endpoint]\<rparr>)"
    using none
    by (simp add: fetchFromApi_A_def fetchFromApi_B_def Let_def BAD_REQUEST_def
        split: reply.splits body.splits)
  ultimately show ?thesis using False by simp
qed

text \<open>
  Witness for C10, the remote side answering \<^verbatim>\<open>{"results":[]}\<close>: with \<^verbatim>\<open>{}\<close> stored for
  \<^verbatim>\<open>films/\<close> the call returns \<^verbatim>\<open>{}\<close> and issues no request; with \<^verbatim>\<open>0\<close> stored it
  issues a request, resolves with \<^verbatim>\<open>{"results":[]}\<close> and stores that in place of
  \<^verbatim>\<open>0\<close>.
\<close>

theorem hit_by_truthiness_witness:
  "fetchFromApi_A all_good ''films/'' (initial_state\<lparr>cache := [(''films/'', JObj [])]\<rparr>) =
     (Resolved (JObj []), initial_state\<lparr>cache := [(''films/'', JObj [])], calls := [''films/'']\<rparr>) \<and>
   fetchFromApi_B all_good ''films/'' (initial_state\<lparr>cache := [(''films/'', JObj [])]\<rparr>) =
     (Resolved (JObj []), initial_state\<lparr>cache := [(''films/'', JObj [])], calls := [''films/'']\<rparr>) \<and>
   fetchFromApi_A all_good ''films/'' (initial_state\<lparr>cache := [(''films/'', JNum 0)]\<rparr>) =
     (Resolved (JObj [(''results'', JArr [])]),
      initial_state\<lparr>cache := [(''films/'', JObj [(''results'', JArr [])])],
        calls := [''films/''], requests := [''films/'']\<rparr>) \<and>
   fetchFromApi_B all_good ''films/'' (initial_state\<lparr>cache := [(''films/'', JNum 0)]\<rparr>) =
     (Resolved (JObj [(''results'', JArr [])]),
      initial_state\<lparr>cache := [(''films/'', JObj [(''results'', JArr [])])],
        calls := [''films/''], requests := [''films/'']\<rparr>)"
  using hit_by_truthiness [of "initial_state\<lparr>cache := [(''films/'', JObj [])]\<rparr>" "''films/''" "JObj []" all_good]
    hit_by_truthiness [of "initial_state\<lparr>cache := [(''films/'', JNum 0)]\<rparr>" "''films/''" "JNum 0" all_good]
  by (simp add: initial_state_def all_good_def example_env_def example_reply_def)

end
